theory Spec2Isabelle
  imports Main "HOL-Library.Sublist"
begin

section \<open>Paths\<close>

text \<open>
  The plugin manager addresses the store through \<^verbatim>\<open>path.join\<close>.  A path is modelled
  as the list of its segments below the file-system root (an absolute, normalised POSIX
  path).  \<open>path_join base s\<close> is \<^verbatim>\<open>path.join(base, s)\<close> for such a base: the string is
  cut at every slash, empty and \<^verbatim>\<open>.\<close> segments vanish and \<^verbatim>\<open>..\<close> climbs one level
  (staying at the root when there is nothing left to climb).
\<close>

type_synonym path = "string list"

fun segments :: "string \<Rightarrow> string list" where
  "segments [] = [[]]"
| "segments (c # cs) =
     (if c = CHR ''/'' then [] # segments cs
      else (case segments cs of [] \<Rightarrow> [[c]] | s # ss \<Rightarrow> (c # s) # ss))"

fun normalize_onto :: "path \<Rightarrow> string list \<Rightarrow> path" where
  "normalize_onto acc [] = acc"
| "normalize_onto acc (s # ss) =
     (if s = [] \<or> s = ''.'' then normalize_onto acc ss
      else if s = ''..'' then normalize_onto (butlast acc) ss
      else normalize_onto (acc @ [s]) ss)"

definition path_join :: "path \<Rightarrow> string \<Rightarrow> path" where
  "path_join base s = normalize_onto base (segments s)"

text \<open>\<^verbatim>\<open>path.extname\<close> of a file name: from its last dot on, unless that dot opens it.\<close>

definition extname :: "string \<Rightarrow> string" where
  "extname b =
     (if CHR ''.'' \<notin> set b then []
      else (let suff = rev (takeWhile (\<lambda>c. c \<noteq> CHR ''.'') (rev b))
            in if Suc (length suff) = length b then [] else CHR ''.'' # suff))"

section \<open>Data model\<close>

text \<open>
  \<^verbatim>\<open>PackageInfo\<close> is what a registry reports; \<^verbatim>\<open>PackageJsonInfo\<close> is a parsed
  \<^verbatim>\<open>package.json\<close>, whose fields may all be missing; \<^verbatim>\<open>IPluginInfo\<close> is the
  descriptor kept in \<^verbatim>\<open>installedPlugins\<close>.  A dependency object is an association
  list in iteration order.  The \<open>pluginDependencies\<close> field is optional in the model so
  that the guard of \<^verbatim>\<open>installDependencies\<close> and the unguarded lookup of
  \<^verbatim>\<open>unloadWithDependents\<close> both have their two branches.
\<close>

record packageInfo =
  pkgName :: string
  pkgVersion :: string

record packageJson =
  jsonName :: "string option"
  jsonVersion :: "string option"
  jsonMain :: "string option"
  jsonDependencies :: "(string \<times> string) list option"

record pluginInfo =
  pluginName :: string
  pluginVersion :: string
  pluginLocation :: path
  mainFile :: path
  pluginDependencies :: "(string \<times> string) list option"

text \<open>JavaScript truthiness of an optional string: \<^verbatim>\<open>undefined\<close> and \<^verbatim>\<open>""\<close> are falsy.\<close>

fun truthy :: "string option \<Rightarrow> bool" where
  "truthy None = False"
| "truthy (Some s) = (s \<noteq> [])"

datatype error =
    InvalidName string
  | InvalidVersion string
  | NotInstalled string
  | InvalidPackage path
  | JsonSyntaxError path
  | RegExpSyntaxError string
  | ReferenceError string
  | LockAcquireFailure string
  | LockReleaseFailure string
  | SourceFailure string
  | IOError path
  | TypeError

section \<open>The file-system collaborator\<close>

text \<open>
  A file holds either a JSON document read as a manifest or any other text, on which
  \<^verbatim>\<open>JSON.parse\<close> throws.  The file system maps a path to the node found there.
\<close>

datatype content = Text string | Json packageJson

datatype node = Dir | File content

type_synonym filesystem = "path \<Rightarrow> node option"

text \<open>
  The module \<^verbatim>\<open>./fileSystem\<close> is not among the sources.  The spec calls its
  functions low-level primitives that create, delete and copy directories; each is given
  its usual meaning on the path map.
\<close>

text \<open>Modelled from the spec: \<^verbatim>\<open>fs.directoryExists\<close> of the missing module
  \<^verbatim>\<open>./fileSystem\<close>; the path leads to a directory.\<close>

definition directoryExists :: "filesystem \<Rightarrow> path \<Rightarrow> bool" where
  "directoryExists fs p = (fs p = Some Dir)"

text \<open>Modelled from the spec: \<^verbatim>\<open>fs.fileExists\<close> of the missing module
  \<^verbatim>\<open>./fileSystem\<close>; the path leads to a file.\<close>

definition fileExists :: "filesystem \<Rightarrow> path \<Rightarrow> bool" where
  "fileExists fs p = (case fs p of Some (File c) \<Rightarrow> True | _ \<Rightarrow> False)"

text \<open>Modelled from the spec: \<^verbatim>\<open>fs.readFile\<close> of the missing module
  \<^verbatim>\<open>./fileSystem\<close>; the content of a file, an error for anything else.\<close>

definition readFile :: "filesystem \<Rightarrow> path \<Rightarrow> error + content" where
  "readFile fs p = (case fs p of Some (File c) \<Rightarrow> Inr c | _ \<Rightarrow> Inl (IOError p))"

fun isFile :: "node option \<Rightarrow> bool" where
  "isFile (Some (File c)) = True"
| "isFile _ = False"

text \<open>Modelled from the spec: \<^verbatim>\<open>fs.ensureDir\<close> of the missing module
  \<^verbatim>\<open>./fileSystem\<close>; the directory and its missing ancestors are created, and a
  file in the way is an error.\<close>

definition ensureDir :: "filesystem \<Rightarrow> path \<Rightarrow> error + filesystem" where
  "ensureDir fs p =
     (if list_ex (\<lambda>q. isFile (fs q)) (prefixes p) then Inl (IOError p)
      else Inr (\<lambda>q. if prefix q p \<and> fs q = None then Some Dir else fs q))"

text \<open>Modelled from the spec: \<^verbatim>\<open>fs.writeFile\<close> of the missing module
  \<^verbatim>\<open>./fileSystem\<close>; a file is written, over the old one if any, into a directory
  that exists.\<close>

definition writeFile :: "filesystem \<Rightarrow> path \<Rightarrow> content \<Rightarrow> error + filesystem" where
  "writeFile fs p c =
     (if p \<noteq> [] \<and> directoryExists fs (butlast p) \<and> \<not> directoryExists fs p
      then Inr (fs(p \<mapsto> File c)) else Inl (IOError p))"

text \<open>Modelled from the spec: \<^verbatim>\<open>fs.remove\<close> of the missing module
  \<^verbatim>\<open>./fileSystem\<close>; the node at the path goes with everything below it, and
  removing what is not there is no error.\<close>

definition remove :: "filesystem \<Rightarrow> path \<Rightarrow> filesystem" where
  "remove fs p = (\<lambda>q. if prefix p q then None else fs q)"

text \<open>Modelled from the spec: \<^verbatim>\<open>fs.copy\<close> of the missing module
  \<^verbatim>\<open>./fileSystem\<close>, called as
  \<^verbatim>\<open>fs.copy(src, dest, {exclude: ["node_modules"]})\<close>; every node below \<open>src\<close> is
  laid over \<open>dest\<close>, but for the subtree \<^verbatim>\<open>src/node_modules\<close>.\<close>

definition copy :: "filesystem \<Rightarrow> path \<Rightarrow> path \<Rightarrow> string list \<Rightarrow> error + filesystem" where
  "copy fs src dest exclude =
     (if \<not> directoryExists fs src then Inl (IOError src)
      else Inr (\<lambda>q. if prefix dest q
                     then (let r = drop (length dest) q
                           in if r \<noteq> [] \<and> hd r \<in> set exclude then fs q
                              else (case fs (src @ r) of None \<Rightarrow> fs q | Some n \<Rightarrow> Some n))
                     else fs q))"

section \<open>Options and collaborators\<close>

text \<open>
  An ignore pattern is a string or a \<^verbatim>\<open>RegExp\<close> object; a \<^verbatim>\<open>RegExp\<close> is
  represented by its \<^verbatim>\<open>test\<close> method.  The constructor \<^verbatim>\<open>new RegExp(s)\<close> on a
  string either gives such an object or throws a syntax error, when the string is not a
  regular expression; \<open>newRegExp\<close> answers \<open>None\<close> then.
\<close>

datatype pattern = PString string | PRegExp "string \<Rightarrow> bool"

text \<open>
  An archive is the list of the files of a tarball, each under its path inside the
  tarball.
\<close>

type_synonym archive = "(path \<times> content) list"

text \<open>
  The record gathers \<^verbatim>\<open>this.options\<close> and what the manager reaches outside this
  file: the registry clients (\<^verbatim>\<open>get\<close>, \<^verbatim>\<open>isGithubRepo\<close>, the tarball a package
  info points to), the \<^verbatim>\<open>semver\<close> and \<^verbatim>\<open>lockfile\<close> libraries and the
  \<^verbatim>\<open>RegExp\<close> constructor on strings.  They are parameters: every theorem below
  holds for whatever they do, and the concrete scenarios fix them.
  \<open>hostRequire\<close> answers, for a module name, the version found in the host's
  \<^verbatim>\<open>name/package.json\<close>, or nothing when the \<^verbatim>\<open>require\<close> throws.
  \<open>lockfileLock\<close> and \<open>lockfileUnlock\<close> give the error message of the callback
  or the file system they leave; the waiting time and the staleness threshold are inside
  them.  \<^verbatim>\<open>lockFile.unlock\<close> is best effort: it unlinks the file and calls back
  without an error whatever the unlink did, so the rejecting branch of
  \<^verbatim>\<open>syncUnlock\<close> is there as in the source, and the theorems that follow a
  release take an unlock that reports none.
\<close>

record manager =
  pluginsPath :: path
  ignoredDependencies :: "pattern list"
  staticDependencies :: "string list"
  hostRequire :: "(string \<Rightarrow> string option) option"
  npmGet :: "string \<Rightarrow> string \<Rightarrow> error + packageInfo"
  npmTarball :: "packageInfo \<Rightarrow> error + archive"
  githubGet :: "string \<Rightarrow> error + packageInfo"
  githubTarball :: "packageInfo \<Rightarrow> error + archive"
  isGithubRepo :: "string \<Rightarrow> bool"
  semverSatisfies :: "string \<Rightarrow> string \<Rightarrow> bool"
  semverValid :: "string \<Rightarrow> bool"
  newRegExp :: "string \<Rightarrow> (string \<Rightarrow> bool) option"
  lockfileLock :: "path \<Rightarrow> filesystem \<Rightarrow> string + filesystem"
  lockfileUnlock :: "path \<Rightarrow> filesystem \<Rightarrow> string + filesystem"

section \<open>State and effects\<close>

text \<open>
  The trace records, in order, every call that can change the store or that reaches a
  collaborator (registry, lock, loader), at the moment of the call and whether or not it
  succeeds.  Read-only probes of the file system are not recorded, nor is the temporary
  file of \<^verbatim>\<open>downloadTarball\<close>, which lies outside the store.
\<close>

datatype event =
    FsEnsureDir path
  | FsRemove path
  | FsWriteFile path
  | FsCopy path path
  | FsExtract path
  | LockAcquire
  | LockRelease
  | NpmGet string string
  | NpmDownload string
  | GithubGet string
  | GithubDownload string
  | VmUnload string

record state =
  disk :: filesystem
  installedPlugins :: "pluginInfo list"
  trace :: "event list"

definition emit :: "event \<Rightarrow> state \<Rightarrow> state" where
  "emit e st = st\<lparr>trace := trace st @ [e]\<rparr>"

text \<open>
  A call returns a value or throws, and leaves a state either way; \<open>None\<close> stands for
  a call that never returns.
\<close>

type_synonym 'a result = "((error + 'a) \<times> state) option"

section \<open>Names, lookups, manifests\<close>

definition DefaultMainFile :: string where
  "DefaultMainFile = ''index.js''"

definition NPM_LATEST_TAG :: string where
  "NPM_LATEST_TAG = ''latest''"

text \<open>
  Names are strings here, so the test \<^verbatim>\<open>typeof name !== "string"\<close> has no branch.
  \<^verbatim>\<open>CHR 0x5C\<close> is the backslash.
\<close>

definition isValidPluginName :: "string \<Rightarrow> bool" where
  "isValidPluginName name =
     (if length name = 0 then False
      else if hd name = CHR ''.'' \<or> CHR 0x5C \<in> set name then False
      else True)"

definition getPluginLocation :: "manager \<Rightarrow> string \<Rightarrow> path" where
  "getPluginLocation m name = path_join (pluginsPath m) name"

definition getFullInfo :: "pluginInfo list \<Rightarrow> string \<Rightarrow> pluginInfo option" where
  "getFullInfo installed name = find (\<lambda>p. pluginName p = name) installed"

definition getInfo :: "pluginInfo list \<Rightarrow> string \<Rightarrow> pluginInfo option" where
  "getInfo installed name = getFullInfo installed name"

definition alreadyInstalled ::
  "manager \<Rightarrow> pluginInfo list \<Rightarrow> string \<Rightarrow> string option \<Rightarrow> pluginInfo option" where
  "alreadyInstalled m installed name version =
     (case getInfo installed name of
        None \<Rightarrow> None
      | Some installedInfo \<Rightarrow>
          if \<not> truthy version then Some installedInfo
          else if semverSatisfies m (pluginVersion installedInfo) (the version)
          then Some installedInfo
          else None)"

definition readPackageJsonFromPath :: "filesystem \<Rightarrow> path \<Rightarrow> error + packageJson" where
  "readPackageJsonFromPath fs location =
     (let packageJsonFile = path_join location ''package.json''
      in if \<not> fileExists fs packageJsonFile then Inl (InvalidPackage location)
         else (case readFile fs packageJsonFile of
                 Inl e \<Rightarrow> Inl e
               | Inr (Text t) \<Rightarrow> Inl (JsonSyntaxError packageJsonFile)
               | Inr (Json packageJson) \<Rightarrow>
                   if \<not> truthy (jsonName packageJson) \<or> \<not> truthy (jsonVersion packageJson)
                   then Inl (InvalidPackage location)
                   else Inr packageJson))"

definition isAlreadyDownloaded :: "manager \<Rightarrow> filesystem \<Rightarrow> string \<Rightarrow> string \<Rightarrow> bool" where
  "isAlreadyDownloaded m fs name version =
     (let location = getPluginLocation m name
      in if \<not> directoryExists fs location then False
         else (case readPackageJsonFromPath fs location of
                 Inl e \<Rightarrow> False
               | Inr packageJson \<Rightarrow>
                   jsonName packageJson = Some name \<and> jsonVersion packageJson = Some version))"

text \<open>The guard is the source's: the removal runs when the directory does \<^emph>\<open>not\<close> exist.\<close>

definition removeDownloaded :: "manager \<Rightarrow> string \<Rightarrow> state \<Rightarrow> state" where
  "removeDownloaded m name st =
     (let location = getPluginLocation m name
      in if \<not> directoryExists (disk st) location
         then emit (FsRemove location) (st\<lparr>disk := remove (disk st) location\<rparr>)
         else st)"

text \<open>
  \<^verbatim>\<open>path.join\<close> keeps the slash a main file ends in, and the extension is appended
  to the string: after a slash it makes a segment of its own.
\<close>

definition createPluginInfo :: "manager \<Rightarrow> filesystem \<Rightarrow> string \<Rightarrow> error + pluginInfo" where
  "createPluginInfo m fs name =
     (let DefaultMainFileExtension = ''.js'';
          location = getPluginLocation m name
      in case readPackageJsonFromPath fs location of
           Inl e \<Rightarrow> Inl e
         | Inr packageJson \<Rightarrow>
             (let main = (if truthy (jsonMain packageJson) then the (jsonMain packageJson)
                          else DefaultMainFile);
                  joined = path_join location main;
                  mainFile = (if joined = [] then [DefaultMainFileExtension]
                              else if extname (last joined) = []
                              then (if main \<noteq> [] \<and> last main = CHR ''/''
                                    then joined @ [DefaultMainFileExtension]
                                    else butlast joined @ [last joined @ DefaultMainFileExtension])
                              else joined)
              in Inr \<lparr> pluginName = the (jsonName packageJson),
                       pluginVersion = the (jsonVersion packageJson),
                       pluginLocation = location,
                       mainFile = mainFile,
                       pluginDependencies =
                         (case jsonDependencies packageJson of
                            None \<Rightarrow> Some [] | Some d \<Rightarrow> Some d) \<rparr>))"

section \<open>Dependency filters\<close>

text \<open>
  \<^verbatim>\<open>shouldIgnore\<close>: a \<^verbatim>\<open>RegExp\<close> pattern is tested, and tested again through
  \<^verbatim>\<open>new RegExp(p)\<close>, which copies it and cannot throw; a string pattern is compiled
  by \<^verbatim>\<open>new RegExp(p)\<close>, which throws when the string is not a regular expression,
  and tested.  The patterns are tried in order and the first that tests true ends the
  loop.  Then the keys of \<^verbatim>\<open>staticDependencies\<close> are compared with the name.
\<close>

fun patternTest :: "manager \<Rightarrow> string \<Rightarrow> pattern \<Rightarrow> error + bool" where
  "patternTest m name (PRegExp r) = Inr (if r name then True else r name)"
| "patternTest m name (PString s) =
     (case newRegExp m s of
        None \<Rightarrow> Inl (RegExpSyntaxError s)
      | Some r \<Rightarrow> Inr (r name))"

fun ignoredByPatterns :: "manager \<Rightarrow> string \<Rightarrow> pattern list \<Rightarrow> error + bool" where
  "ignoredByPatterns m name [] = Inr False"
| "ignoredByPatterns m name (p # ps) =
     (case patternTest m name p of
        Inl e \<Rightarrow> Inl e
      | Inr ignoreMe \<Rightarrow> if ignoreMe then Inr True else ignoredByPatterns m name ps)"

fun isStaticKey :: "string \<Rightarrow> string list \<Rightarrow> bool" where
  "isStaticKey name [] = False"
| "isStaticKey name (key # keys) = (if key = name then True else isStaticKey name keys)"

definition shouldIgnore :: "manager \<Rightarrow> string \<Rightarrow> error + bool" where
  "shouldIgnore m name =
     (case ignoredByPatterns m name (ignoredDependencies m) of
        Inl e \<Rightarrow> Inl e
      | Inr ignoreMe \<Rightarrow>
          if ignoreMe then Inr True
          else if isStaticKey name (staticDependencies m) then Inr True
          else Inr False)"

definition isModuleAvailableFromHost :: "manager \<Rightarrow> string \<Rightarrow> string \<Rightarrow> bool" where
  "isModuleAvailableFromHost m name version =
     (case hostRequire m of
        None \<Rightarrow> False
      | Some req \<Rightarrow>
          (case req name of
             None \<Rightarrow> False
           | Some hostVersion \<Rightarrow> semverSatisfies m hostVersion version))"

section \<open>Uninstall\<close>

text \<open>A \<^verbatim>\<open>for\<close> loop whose body may throw or never return.\<close>

fun forEach :: "('a \<Rightarrow> state \<Rightarrow> unit result) \<Rightarrow> 'a list \<Rightarrow> state \<Rightarrow> unit result" where
  "forEach body [] st = Some (Inr (), st)"
| "forEach body (x # xs) st =
     (case body x st of
        None \<Rightarrow> None
      | Some (Inl e, st') \<Rightarrow> Some (Inl e, st')
      | Some (Inr u, st') \<Rightarrow> forEach body xs st')"

text \<open>
  The test \<^verbatim>\<open>installed.dependencies[plugin.name]\<close> reads a property of a plain
  object: the value of the object's own key when it has one (the empty string is falsy),
  and otherwise what \<^verbatim>\<open>Object.prototype\<close> has under that name, which is truthy.
\<close>

definition objectPrototypeKeys :: "string list" where
  "objectPrototypeKeys =
     [''constructor'', ''toString'', ''toLocaleString'', ''valueOf'', ''hasOwnProperty'',
      ''isPrototypeOf'', ''propertyIsEnumerable'', ''__proto__'', ''__defineGetter__'',
      ''__defineSetter__'', ''__lookupGetter__'', ''__lookupSetter__'']"

definition dependsOn :: "(string \<times> string) list \<Rightarrow> string \<Rightarrow> bool" where
  "dependsOn deps name =
     (case map_of deps name of
        Some v \<Rightarrow> v \<noteq> []
      | None \<Rightarrow> name \<in> set objectPrototypeKeys)"

text \<open>
  \<^verbatim>\<open>unloadWithDependents\<close> hands the plugin to the loader and recurses into every
  installed plugin that names it among its dependencies.  The recursion is the source's
  and has no guard; the first argument bounds its depth, and \<open>None\<close> is a recursion
  deeper than that (where the source, whose recursion here is synchronous, would end in
  a stack overflow).  Reading a property of a missing dependency object is a type error.
\<close>

fun unloadWithDependents :: "nat \<Rightarrow> pluginInfo \<Rightarrow> state \<Rightarrow> unit result" where
  "unloadWithDependents 0 plugin st = None"
| "unloadWithDependents (Suc n) plugin st =
     (let st1 = emit (VmUnload (pluginName plugin)) st
      in forEach
           (\<lambda>installed s.
              case pluginDependencies installed of
                None \<Rightarrow> Some (Inl TypeError, s)
              | Some deps \<Rightarrow>
                  if dependsOn deps (pluginName plugin)
                  then unloadWithDependents n installed s
                  else Some (Inr (), s))
           (installedPlugins st1) st1)"

definition deleteAndUnloadPlugin :: "nat \<Rightarrow> pluginInfo \<Rightarrow> state \<Rightarrow> unit result" where
  "deleteAndUnloadPlugin n plugin st =
     (let st1 = st\<lparr>installedPlugins := remove1 plugin (installedPlugins st)\<rparr>
      in case unloadWithDependents n plugin st1 of
           None \<Rightarrow> None
         | Some (Inl e, st2) \<Rightarrow> Some (Inl e, st2)
         | Some (Inr u, st2) \<Rightarrow>
             Some (Inr (), emit (FsRemove (pluginLocation plugin))
                             (st2\<lparr>disk := remove (disk st2) (pluginLocation plugin)\<rparr>)))"

definition uninstallLockFree :: "nat \<Rightarrow> manager \<Rightarrow> string \<Rightarrow> state \<Rightarrow> unit result" where
  "uninstallLockFree n m name st =
     (if \<not> isValidPluginName name then Some (Inl (InvalidName name), st)
      else (case getFullInfo (installedPlugins st) name of
              None \<Rightarrow> Some (Inr (), st)
            | Some info \<Rightarrow> deleteAndUnloadPlugin n info st))"

section \<open>Materialising a package\<close>

text \<open>
  \<^verbatim>\<open>extractTarball\<close> creates the destination and unpacks with \<^verbatim>\<open>strip: 1\<close>: the
  first segment of every entry is dropped, an entry with nothing left is skipped, and a
  file is written over whatever file the destination has under the same path.
\<close>

definition extractEntry :: "path \<Rightarrow> filesystem \<Rightarrow> path \<times> content \<Rightarrow> filesystem" where
  "extractEntry dest fs entry =
     (let rel = tl (fst entry)
      in if rel = [] then fs
         else (\<lambda>q. if q = dest @ rel then Some (File (snd entry))
                    else if prefix q (dest @ rel) \<and> fs q = None then Some Dir
                    else fs q))"

definition extractTarball :: "archive \<Rightarrow> path \<Rightarrow> filesystem \<Rightarrow> error + filesystem" where
  "extractTarball tgzFile destinationDirectory fs =
     (case ensureDir fs destinationDirectory of
        Inl e \<Rightarrow> Inl e
      | Inr fs1 \<Rightarrow> Inr (foldl (extractEntry destinationDirectory) fs1 tgzFile))"

text \<open>
  Modelled from the spec: the \<^verbatim>\<open>download\<close> method of the two registry clients is not
  among the sources.  The spec: it fetches a single archive and extracts it into the
  store, dropping one leading directory level; a failure is a materialise error.  The
  package goes to the directory of its name under the destination.
\<close>

definition download ::
  "(packageInfo \<Rightarrow> error + archive) \<Rightarrow> (string \<Rightarrow> event) \<Rightarrow> path \<Rightarrow> packageInfo \<Rightarrow>
   state \<Rightarrow> (error + unit) \<times> state" where
  "download tarball ev destinationDirectory packageInfo st =
     (let st1 = emit (ev (pkgName packageInfo)) st;
          pluginDirectory = path_join destinationDirectory (pkgName packageInfo)
      in case tarball packageInfo of
           Inl e \<Rightarrow> (Inl e, st1)
         | Inr tgzFile \<Rightarrow>
             (case extractTarball tgzFile pluginDirectory (disk st1) of
                Inl e \<Rightarrow> (Inl e, st1)
              | Inr fs' \<Rightarrow> (Inr (), emit (FsExtract pluginDirectory) (st1\<lparr>disk := fs'\<rparr>))))"

text \<open>The copy of \<^verbatim>\<open>installFromPathLockFree\<close> and the writes of \<^verbatim>\<open>installFromCodeLockFree\<close>.\<close>

definition copyFromPath :: "manager \<Rightarrow> path \<Rightarrow> string \<Rightarrow> state \<Rightarrow> (error + unit) \<times> state" where
  "copyFromPath m location name st =
     (let dest = getPluginLocation m name;
          st1 = emit (FsCopy location dest) st
      in case copy (disk st1) location dest [''node_modules''] of
           Inl e \<Rightarrow> (Inl e, st1)
         | Inr fs' \<Rightarrow> (Inr (), st1\<lparr>disk := fs'\<rparr>))"

definition createFromCode ::
  "manager \<Rightarrow> string \<Rightarrow> string \<Rightarrow> string \<Rightarrow> state \<Rightarrow> (error + unit) \<times> state" where
  "createFromCode m name code version st =
     (let location = getPluginLocation m name;
          st1 = emit (FsEnsureDir location) st
      in case ensureDir (disk st1) location of
           Inl e \<Rightarrow> (Inl e, st1)
         | Inr fs1 \<Rightarrow>
             (let st2 = emit (FsWriteFile (path_join location DefaultMainFile)) (st1\<lparr>disk := fs1\<rparr>)
              in case writeFile (disk st2) (path_join location DefaultMainFile) (Text code) of
                   Inl e \<Rightarrow> (Inl e, st2)
                 | Inr fs2 \<Rightarrow>
                     (let st3 = emit (FsWriteFile (path_join location ''package.json''))
                                  (st2\<lparr>disk := fs2\<rparr>)
                      in case writeFile (disk st3) (path_join location ''package.json'')
                                (Json \<lparr> jsonName = Some name, jsonVersion = Some version,
                                        jsonMain = None, jsonDependencies = None \<rparr>) of
                           Inl e \<Rightarrow> (Inl e, st3)
                         | Inr fs3 \<Rightarrow> (Inr (), st3\<lparr>disk := fs3\<rparr>))))"

section \<open>Dependency resolution and registration\<close>

text \<open>
  The install functions call each other in a cycle: \<^verbatim>\<open>installLockFree\<close> reaches
  \<^verbatim>\<open>addPlugin\<close>, which reaches \<^verbatim>\<open>installDependencies\<close>, which calls
  \<^verbatim>\<open>installLockFree\<close> again.  Each function below takes that last call as its
  argument \<open>self\<close>; the cycle is closed further down.
\<close>

type_synonym installer = "string \<Rightarrow> string option \<Rightarrow> state \<Rightarrow> pluginInfo result"

fun installDependenciesLoop ::
  "installer \<Rightarrow> manager \<Rightarrow> (string \<times> string) list \<Rightarrow> (string \<times> string) list \<Rightarrow> state \<Rightarrow>
   (string \<times> string) list result" where
  "installDependenciesLoop self m [] dependencies st = Some (Inr dependencies, st)"
| "installDependenciesLoop self m ((key, version) # rest) dependencies st =
     (case shouldIgnore m key of
        Inl e \<Rightarrow> Some (Inl e, st)
      | Inr ignoreMe \<Rightarrow>
          if ignoreMe then installDependenciesLoop self m rest dependencies st
          else if isModuleAvailableFromHost m key version
          then installDependenciesLoop self m rest (dependencies @ [(key, version)]) st
          else if alreadyInstalled m (installedPlugins st) key (Some version) \<noteq> None
          then installDependenciesLoop self m rest (dependencies @ [(key, version)]) st
          else (case self key (Some version) st of
                  None \<Rightarrow> None
                | Some (Inl e, st') \<Rightarrow> Some (Inl e, st')
                | Some (Inr info, st') \<Rightarrow>
                    installDependenciesLoop self m rest (dependencies @ [(key, version)]) st'))"

definition installDependencies ::
  "installer \<Rightarrow> manager \<Rightarrow> pluginInfo \<Rightarrow> state \<Rightarrow> (string \<times> string) list result" where
  "installDependencies self m plugin st =
     (case pluginDependencies plugin of
        None \<Rightarrow> Some (Inr [], st)
      | Some deps \<Rightarrow> installDependenciesLoop self m deps [] st)"

definition addPlugin :: "installer \<Rightarrow> manager \<Rightarrow> pluginInfo \<Rightarrow> state \<Rightarrow> pluginInfo result" where
  "addPlugin self m plugin st =
     (case installDependencies self m plugin st of
        None \<Rightarrow> None
      | Some (Inl e, st') \<Rightarrow> Some (Inl e, st')
      | Some (Inr deps, st') \<Rightarrow>
          Some (Inr plugin, st'\<lparr>installedPlugins := installedPlugins st' @ [plugin]\<rparr>))"

section \<open>The install decision tree\<close>

text \<open>
  The four \<^verbatim>\<open>install...LockFree\<close> functions end in the same statements: return the
  installed plugin when it satisfies the version, uninstall the installed one otherwise,
  remove and materialise unless the package is already downloaded, read the manifest
  back, register.  \<open>decisionTree\<close> is that tail.  Its arguments say what differs:
  whether the first check is made (\<open>checkInstalled\<close>), whether the download check is
  bypassed (\<open>force\<close>), and how the package is materialised.
\<close>

definition decisionTree ::
  "nat \<Rightarrow> installer \<Rightarrow> manager \<Rightarrow> string \<Rightarrow> string \<Rightarrow> bool \<Rightarrow> bool \<Rightarrow>
   (state \<Rightarrow> (error + unit) \<times> state) \<Rightarrow> state \<Rightarrow> pluginInfo result" where
  "decisionTree n self m name version checkInstalled force materialize st =
     (case (if checkInstalled then alreadyInstalled m (installedPlugins st) name (Some version)
            else None) of
        Some installedInfo \<Rightarrow> Some (Inr installedInfo, st)
      | None \<Rightarrow>
          (case (if alreadyInstalled m (installedPlugins st) name None \<noteq> None
                 then uninstallLockFree n m name st else Some (Inr (), st)) of
             None \<Rightarrow> None
           | Some (Inl e, st1) \<Rightarrow> Some (Inl e, st1)
           | Some (Inr u, st1) \<Rightarrow>
               (case (if force \<or> \<not> isAlreadyDownloaded m (disk st1) name version
                      then materialize (removeDownloaded m name st1)
                      else (Inr (), st1)) of
                  (Inl e, st2) \<Rightarrow> Some (Inl e, st2)
                | (Inr u, st2) \<Rightarrow>
                    (case createPluginInfo m (disk st2) name of
                       Inl e \<Rightarrow> Some (Inl e, st2)
                     | Inr pluginInfo \<Rightarrow> addPlugin self m pluginInfo st2))))"

definition installFromNpmLockFree ::
  "nat \<Rightarrow> installer \<Rightarrow> manager \<Rightarrow> string \<Rightarrow> string option \<Rightarrow> state \<Rightarrow> pluginInfo result" where
  "installFromNpmLockFree n self m name version st =
     (if \<not> isValidPluginName name then Some (Inl (InvalidName name), st)
      else (let v = (case version of None \<Rightarrow> NPM_LATEST_TAG | Some v \<Rightarrow> v);
                st1 = emit (NpmGet name v) st
            in case npmGet m name v of
                 Inl e \<Rightarrow> Some (Inl e, st1)
               | Inr registryInfo \<Rightarrow>
                   decisionTree n self m (pkgName registryInfo) (pkgVersion registryInfo)
                     True False
                     (download (npmTarball m) NpmDownload (pluginsPath m) registryInfo) st1))"

text \<open>
  In \<^verbatim>\<open>installFromGithubLockFree\<close> the message of the invalid-name error is built
  from \<^verbatim>\<open>name\<close>, which is not in scope there: what is thrown is the reference
  error of that read.
\<close>

definition installFromGithubLockFree ::
  "nat \<Rightarrow> installer \<Rightarrow> manager \<Rightarrow> string \<Rightarrow> state \<Rightarrow> pluginInfo result" where
  "installFromGithubLockFree n self m repository st =
     (let st1 = emit (GithubGet repository) st
      in case githubGet m repository of
           Inl e \<Rightarrow> Some (Inl e, st1)
         | Inr registryInfo \<Rightarrow>
             if \<not> isValidPluginName (pkgName registryInfo)
             then Some (Inl (ReferenceError ''name''), st1)
             else decisionTree n self m (pkgName registryInfo) (pkgVersion registryInfo)
                    True False
                    (download (githubTarball m) GithubDownload (pluginsPath m) registryInfo) st1)"

definition installFromPathLockFree ::
  "nat \<Rightarrow> installer \<Rightarrow> manager \<Rightarrow> path \<Rightarrow> bool \<Rightarrow> state \<Rightarrow> pluginInfo result" where
  "installFromPathLockFree n self m location force st =
     (case readPackageJsonFromPath (disk st) location of
        Inl e \<Rightarrow> Some (Inl e, st)
      | Inr packageJson \<Rightarrow>
          (let name = the (jsonName packageJson); version = the (jsonVersion packageJson)
           in if \<not> isValidPluginName name then Some (Inl (InvalidName name), st)
              else decisionTree n self m name version (\<not> force) force
                     (copyFromPath m location name) st))"

definition installFromCodeLockFree ::
  "nat \<Rightarrow> installer \<Rightarrow> manager \<Rightarrow> string \<Rightarrow> string \<Rightarrow> string option \<Rightarrow> state \<Rightarrow>
   pluginInfo result" where
  "installFromCodeLockFree n self m name code versionArg st =
     (let version = (case versionArg of None \<Rightarrow> ''0.0.0'' | Some v \<Rightarrow> v)
      in if \<not> isValidPluginName name then Some (Inl (InvalidName name), st)
         else if \<not> semverValid m version then Some (Inl (InvalidVersion version), st)
         else decisionTree n self m name version (version \<noteq> ''0.0.0'') False
                (createFromCode m name code version) st)"

definition installLockFree_step ::
  "nat \<Rightarrow> installer \<Rightarrow> manager \<Rightarrow> string \<Rightarrow> string option \<Rightarrow> state \<Rightarrow> pluginInfo result" where
  "installLockFree_step n self m name version st =
     (if \<not> isValidPluginName name then Some (Inl (InvalidName name), st)
      else if truthy version \<and> isGithubRepo m (the version)
      then installFromGithubLockFree n self m (the version) st
      else installFromNpmLockFree n self m name version st)"

text \<open>
  Closing the cycle.  \<open>installLockFree n\<close> is \<^verbatim>\<open>installLockFree\<close> with its nested
  calls of itself limited to depth \<open>n\<close>; \<open>None\<close> is a recursion deeper than that.  The
  source has no such limit: a call returns exactly when some \<open>n\<close> gives a result.
\<close>

primrec installLockFree :: "nat \<Rightarrow> manager \<Rightarrow> installer" where
  "installLockFree 0 m = (\<lambda>name version st. None)"
| "installLockFree (Suc n) m = installLockFree_step n (installLockFree n m) m"

section \<open>The lock and the public operations\<close>

definition lockLocation :: "manager \<Rightarrow> path" where
  "lockLocation m = path_join (pluginsPath m) ''install.lock''"

definition syncLock :: "manager \<Rightarrow> state \<Rightarrow> (error + unit) \<times> state" where
  "syncLock m st =
     (let st1 = emit LockAcquire st
      in case lockfileLock m (lockLocation m) (disk st1) of
           Inl message \<Rightarrow> (Inl (LockAcquireFailure (''Failed to acquire lock: '' @ message)), st1)
         | Inr fs' \<Rightarrow> (Inr (), st1\<lparr>disk := fs'\<rparr>))"

definition syncUnlock :: "manager \<Rightarrow> state \<Rightarrow> (error + unit) \<times> state" where
  "syncUnlock m st =
     (let st1 = emit LockRelease st
      in case lockfileUnlock m (lockLocation m) (disk st1) of
           Inl message \<Rightarrow> (Inl (LockReleaseFailure (''Failed to release lock: '' @ message)), st1)
         | Inr fs' \<Rightarrow> (Inr (), st1\<lparr>disk := fs'\<rparr>))"

text \<open>
  Every public operation has the same frame:
  \<^verbatim>\<open>await fs.ensureDir(pluginsPath); await this.syncLock(); try { return await body } finally { await this.syncUnlock() }\<close>.
  A \<^verbatim>\<open>finally\<close> block that throws replaces the outcome of the \<^verbatim>\<open>try\<close> block by
  its own exception; one that completes leaves that outcome as it is.
\<close>

definition tryFinally :: "'a result \<Rightarrow> (state \<Rightarrow> (error + unit) \<times> state) \<Rightarrow> 'a result" where
  "tryFinally body finalizer =
     (case body of
        None \<Rightarrow> None
      | Some (outcome, st) \<Rightarrow>
          (case finalizer st of
             (Inl e, st') \<Rightarrow> Some (Inl e, st')
           | (Inr u, st') \<Rightarrow> Some (outcome, st')))"

definition locked :: "manager \<Rightarrow> (state \<Rightarrow> 'a result) \<Rightarrow> state \<Rightarrow> 'a result" where
  "locked m body st =
     (let st1 = emit (FsEnsureDir (pluginsPath m)) st
      in case ensureDir (disk st1) (pluginsPath m) of
           Inl e \<Rightarrow> Some (Inl e, st1)
         | Inr fs1 \<Rightarrow>
             (case syncLock m (st1\<lparr>disk := fs1\<rparr>) of
                (Inl e, st2) \<Rightarrow> Some (Inl e, st2)
              | (Inr u, st2) \<Rightarrow> tryFinally (body st2) (syncUnlock m)))"

definition install :: "nat \<Rightarrow> manager \<Rightarrow> string \<Rightarrow> string option \<Rightarrow> state \<Rightarrow> pluginInfo result" where
  "install n m name version = locked m (installLockFree n m name version)"

definition installFromNpm ::
  "nat \<Rightarrow> manager \<Rightarrow> string \<Rightarrow> string option \<Rightarrow> state \<Rightarrow> pluginInfo result" where
  "installFromNpm n m name version =
     locked m (installFromNpmLockFree n (installLockFree n m) m name version)"

definition installFromPath :: "nat \<Rightarrow> manager \<Rightarrow> path \<Rightarrow> bool \<Rightarrow> state \<Rightarrow> pluginInfo result" where
  "installFromPath n m location force =
     locked m (installFromPathLockFree n (installLockFree n m) m location force)"

definition installFromGithub :: "nat \<Rightarrow> manager \<Rightarrow> string \<Rightarrow> state \<Rightarrow> pluginInfo result" where
  "installFromGithub n m repository =
     locked m (installFromGithubLockFree n (installLockFree n m) m repository)"

definition installFromCode ::
  "nat \<Rightarrow> manager \<Rightarrow> string \<Rightarrow> string \<Rightarrow> string option \<Rightarrow> state \<Rightarrow> pluginInfo result" where
  "installFromCode n m name code version =
     locked m (installFromCodeLockFree n (installLockFree n m) m name code version)"

definition uninstall :: "nat \<Rightarrow> manager \<Rightarrow> string \<Rightarrow> state \<Rightarrow> unit result" where
  "uninstall n m name = locked m (uninstallLockFree n m name)"

definition uninstallAll :: "nat \<Rightarrow> manager \<Rightarrow> state \<Rightarrow> unit result" where
  "uninstallAll n m =
     locked m (\<lambda>st. forEach (\<lambda>plugin. uninstallLockFree n m (pluginName plugin))
                       (rev (installedPlugins st)) st)"

section \<open>The array behind \<^verbatim>\<open>list()\<close>\<close>

text \<open>
  \<^verbatim>\<open>list()\<close> returns \<^verbatim>\<open>this.installedPlugins.map((p) => p)\<close>.  What it promises
  depends on which array object is which, so arrays live in a heap here: a reference is
  a number, \<open>arrays\<close> gives the elements of the array a reference points to, and
  \<open>nextRef\<close> is the first reference not handed out yet.  In a well-formed heap no
  array sits at a reference that has not been handed out.  \<^verbatim>\<open>Array.prototype.map\<close>
  allocates the array it returns: it takes the next reference and moves \<open>nextRef\<close>
  past it.
  \<open>arrayWrite\<close> stands for any mutation of an array by its holder (\<^verbatim>\<open>push\<close>,
  \<^verbatim>\<open>splice\<close>, \<^verbatim>\<open>reverse\<close>, an indexed store): the array gets new elements.
  \<open>installedPlugins st\<close> of the sections above is the content of the one array
  \<^verbatim>\<open>this.installedPlugins\<close>: \<open>managerState\<close> is the state the operations of a
  manager work on when its array is the one at \<open>this_installedPlugins\<close>.
\<close>

record heap =
  arrays :: "nat \<Rightarrow> pluginInfo list option"
  nextRef :: nat

definition wellFormed :: "heap \<Rightarrow> bool" where
  "wellFormed h = (\<forall>a. nextRef h \<le> a \<longrightarrow> arrays h a = None)"

definition deref :: "heap \<Rightarrow> nat \<Rightarrow> pluginInfo list" where
  "deref h r = (case arrays h r of None \<Rightarrow> [] | Some ps \<Rightarrow> ps)"

definition arrayWrite :: "nat \<Rightarrow> pluginInfo list \<Rightarrow> heap \<Rightarrow> heap" where
  "arrayWrite r ps h = h\<lparr>arrays := (arrays h)(r \<mapsto> ps)\<rparr>"

definition managerState :: "nat \<Rightarrow> heap \<Rightarrow> filesystem \<Rightarrow> event list \<Rightarrow> state" where
  "managerState this_installedPlugins h files events =
     \<lparr> disk = files, installedPlugins = deref h this_installedPlugins, trace = events \<rparr>"

definition list :: "nat \<Rightarrow> heap \<Rightarrow> nat \<times> heap" where
  "list this_installedPlugins h =
     (let fresh = nextRef h
      in (fresh, h\<lparr>arrays := (arrays h)(fresh \<mapsto> map (\<lambda>p. p) (deref h this_installedPlugins)),
                    nextRef := Suc fresh\<rparr>))"

section \<open>Scenarios\<close>

text \<open>
  Concrete collaborators for the scenarios evaluated below.  The lock is a file created
  by \<^verbatim>\<open>lock\<close> and deleted by \<^verbatim>\<open>unlock\<close>, which reports no error.
  \<open>demoRegExp\<close> is \<^verbatim>\<open>new RegExp(p)\<close> on the strings the scenarios use: a
  pattern of letters only compiles to the search for it anywhere in the name
  (\<open>literalSearch\<close>), and \<^verbatim>\<open>"*"\<close> is not a regular expression; it answers
  \<open>None\<close> on every other string as well, which the scenarios do not use.
  \<open>demoSatisfies\<close> and \<open>demoValid\<close> hold the facts about \<^verbatim>\<open>semver\<close> that the
  scenarios use and are false elsewhere.
\<close>

definition stdLock :: "path \<Rightarrow> filesystem \<Rightarrow> string + filesystem" where
  "stdLock p fs = (if fs p = None then Inr (fs(p \<mapsto> File (Text []))) else Inl ''EEXIST'')"

definition stdUnlock :: "path \<Rightarrow> filesystem \<Rightarrow> string + filesystem" where
  "stdUnlock p fs = Inr (fs(p := None))"

fun literalSearch :: "string \<Rightarrow> string \<Rightarrow> bool" where
  "literalSearch p [] = (p = [])"
| "literalSearch p (c # cs) = (if prefix p (c # cs) then True else literalSearch p cs)"

definition isLetter :: "char \<Rightarrow> bool" where
  "isLetter c = (c \<in> set ''abcdefghijklmnopqrstuvwxyzABCDEFGHIJKLMNOPQRSTUVWXYZ'')"

definition demoRegExp :: "string \<Rightarrow> (string \<Rightarrow> bool) option" where
  "demoRegExp p = (if list_all isLetter p then Some (literalSearch p) else None)"

definition demoSatisfies :: "string \<Rightarrow> string \<Rightarrow> bool" where
  "demoSatisfies v r =
     (v \<in> set [''0.0.0'', ''1.0.0'', ''1.2.0'', ''2.0.0''] \<and>
      (r = v \<or> (r = ''^1.0.0'' \<and> (v = ''1.0.0'' \<or> v = ''1.2.0''))))"

definition demoValid :: "string \<Rightarrow> bool" where
  "demoValid v = (v \<in> set [''0.0.0'', ''1.0.0'', ''1.2.0'', ''2.0.0''])"

definition manifest :: "string \<Rightarrow> string \<Rightarrow> (string \<times> string) list option \<Rightarrow> packageJson" where
  "manifest name version deps =
     \<lparr> jsonName = Some name, jsonVersion = Some version, jsonMain = None,
       jsonDependencies = deps \<rparr>"

definition baseManager :: manager where
  "baseManager =
     \<lparr> pluginsPath = [''plugin_packages''],
       ignoredDependencies = [],
       staticDependencies = [],
       hostRequire = None,
       npmGet = (\<lambda>name v. Inl (SourceFailure name)),
       npmTarball = (\<lambda>info. Inl (SourceFailure (pkgName info))),
       githubGet = (\<lambda>repository. Inl (SourceFailure repository)),
       githubTarball = (\<lambda>info. Inl (SourceFailure (pkgName info))),
       isGithubRepo = (\<lambda>v. False),
       semverSatisfies = demoSatisfies,
       semverValid = demoValid,
       newRegExp = demoRegExp,
       lockfileLock = stdLock,
       lockfileUnlock = stdUnlock \<rparr>"

definition emptyState :: state where
  "emptyState = \<lparr> disk = Map.empty, installedPlugins = [], trace = [] \<rparr>"

text \<open>
  A registry that serves package \<^verbatim>\<open>p\<close> at one version, whatever tag or range is
  asked for; its tarball wraps a manifest and an entry file in one directory.
\<close>

definition registryWith :: "string \<Rightarrow> manager" where
  "registryWith version = baseManager
     \<lparr> npmGet := (\<lambda>name v. if name = ''p'' then Inr \<lparr> pkgName = ''p'', pkgVersion = version \<rparr>
                            else Inl (SourceFailure name)),
       npmTarball := (\<lambda>info. Inr [([''package'', ''package.json''],
                                    Json (manifest (pkgName info) (pkgVersion info) None)),
                                   ([''package'', ''index.js''], Text ''new'')]) \<rparr>"

text \<open>
  A store left by an earlier process: \<^verbatim>\<open>p\<close> at 1.0.0 with a file \<^verbatim>\<open>old.js\<close>, and
  nothing registered in memory.
\<close>

definition staleState :: state where
  "staleState =
     \<lparr> disk = [[''plugin_packages''] \<mapsto> Dir,
                [''plugin_packages'', ''p''] \<mapsto> Dir,
                [''plugin_packages'', ''p'', ''package.json''] \<mapsto>
                   File (Json (manifest ''p'' ''1.0.0'' None)),
                [''plugin_packages'', ''p'', ''old.js''] \<mapsto> File (Text ''old'')],
       installedPlugins = [], trace = [] \<rparr>"

text \<open>
  A store left by an earlier process that had run
  \<^verbatim>\<open>installFromCode("x", "old")\<close>, and nothing registered in memory.
\<close>

definition codeState :: state where
  "codeState =
     \<lparr> disk = [[''plugin_packages''] \<mapsto> Dir,
                [''plugin_packages'', ''x''] \<mapsto> Dir,
                [''plugin_packages'', ''x'', ''index.js''] \<mapsto> File (Text ''old''),
                [''plugin_packages'', ''x'', ''package.json''] \<mapsto>
                   File (Json (manifest ''x'' ''0.0.0'' None))],
       installedPlugins = [], trace = [] \<rparr>"

text \<open>
  Packages \<^verbatim>\<open>a\<close> and \<^verbatim>\<open>b\<close>, both at 1.0.0, each depending on the other with the
  range \<^verbatim>\<open>^1.0.0\<close>; both are in the store already and nothing is registered.
\<close>

definition cycleManager :: manager where
  "cycleManager = baseManager
     \<lparr> npmGet := (\<lambda>name v. if name = ''a'' \<or> name = ''b''
                            then Inr \<lparr> pkgName = name, pkgVersion = ''1.0.0'' \<rparr>
                            else Inl (SourceFailure name)) \<rparr>"

definition cycleState :: state where
  "cycleState =
     \<lparr> disk = [[''plugin_packages''] \<mapsto> Dir,
                [''plugin_packages'', ''a''] \<mapsto> Dir,
                [''plugin_packages'', ''a'', ''package.json''] \<mapsto>
                   File (Json (manifest ''a'' ''1.0.0'' (Some [(''b'', ''^1.0.0'')]))),
                [''plugin_packages'', ''b''] \<mapsto> Dir,
                [''plugin_packages'', ''b'', ''package.json''] \<mapsto>
                   File (Json (manifest ''b'' ''1.0.0'' (Some [(''a'', ''^1.0.0'')])))],
       installedPlugins = [], trace = [] \<rparr>"

text \<open>
  A manager that ignores \<^verbatim>\<open>"foo"\<close>, and one whose patterns are \<^verbatim>\<open>"*"\<close> and
  \<^verbatim>\<open>"a"\<close>.
\<close>

definition ignoringManager :: manager where
  "ignoringManager = baseManager \<lparr> ignoredDependencies := [PString ''foo''] \<rparr>"

definition starManager :: manager where
  "starManager = baseManager \<lparr> ignoredDependencies := [PString ''*'', PString ''a''] \<rparr>"

text \<open>
  The descriptor \<^verbatim>\<open>installFromCode(name, code, "1.0.0")\<close> registers, a state in which
  \<^verbatim>\<open>a\<close> and \<^verbatim>\<open>c\<close> have been installed that way, and a state in which \<^verbatim>\<open>p\<close>
  has.
\<close>

definition codePlugin :: "string \<Rightarrow> pluginInfo" where
  "codePlugin name =
     \<lparr> pluginName = name, pluginVersion = ''1.0.0'',
       pluginLocation = [''plugin_packages'', name],
       mainFile = [''plugin_packages'', name, ''index.js''],
       pluginDependencies = Some [] \<rparr>"

definition pairState :: state where
  "pairState =
     \<lparr> disk = [[''plugin_packages''] \<mapsto> Dir,
                [''plugin_packages'', ''a''] \<mapsto> Dir,
                [''plugin_packages'', ''a'', ''index.js''] \<mapsto> File (Text ''A''),
                [''plugin_packages'', ''a'', ''package.json''] \<mapsto>
                   File (Json (manifest ''a'' ''1.0.0'' None)),
                [''plugin_packages'', ''c''] \<mapsto> Dir,
                [''plugin_packages'', ''c'', ''index.js''] \<mapsto> File (Text ''C''),
                [''plugin_packages'', ''c'', ''package.json''] \<mapsto>
                   File (Json (manifest ''c'' ''1.0.0'' None))],
       installedPlugins = [codePlugin ''a'', codePlugin ''c''], trace = [] \<rparr>"

definition singleState :: state where
  "singleState =
     \<lparr> disk = [[''plugin_packages''] \<mapsto> Dir,
                [''plugin_packages'', ''p''] \<mapsto> Dir,
                [''plugin_packages'', ''p'', ''index.js''] \<mapsto> File (Text ''P''),
                [''plugin_packages'', ''p'', ''package.json''] \<mapsto>
                   File (Json (manifest ''p'' ''1.0.0'' None))],
       installedPlugins = [codePlugin ''p''], trace = [] \<rparr>"

section \<open>Packages found in the store\<close>


section \<open>Descriptors with a dependency object\<close>

text \<open>
  The registry is well formed when every descriptor in it has a dependency object; an
  outcome is well formed when it leaves such a registry and, if it is a descriptor, that
  descriptor has one too.
\<close>

definition dependenciesDefined :: "state \<Rightarrow> bool" where
  "dependenciesDefined st = (\<forall>d\<in>set (installedPlugins st). pluginDependencies d \<noteq> None)"

definition definedOutcome :: "error + pluginInfo \<Rightarrow> state \<Rightarrow> bool" where
  "definedOutcome r st =
     (dependenciesDefined st \<and> (case r of Inl e \<Rightarrow> True | Inr d \<Rightarrow> pluginDependencies d \<noteq> None))"

section \<open>Unfolding the model\<close>

lemmas model_defs =
  install_def locked_def tryFinally_def syncLock_def syncUnlock_def lockLocation_def
  installLockFree_step_def installFromNpmLockFree_def installFromGithubLockFree_def
  installFromCodeLockFree_def installFromPathLockFree_def decisionTree_def
  addPlugin_def installDependencies_def createPluginInfo_def readPackageJsonFromPath_def
  isAlreadyDownloaded_def removeDownloaded_def alreadyInstalled_def getInfo_def getFullInfo_def
  uninstallLockFree_def deleteAndUnloadPlugin_def download_def extractTarball_def extractEntry_def
  ensureDir_def writeFile_def readFile_def fileExists_def directoryExists_def remove_def copy_def
  getPluginLocation_def path_join_def isValidPluginName_def emit_def extname_def
  DefaultMainFile_def NPM_LATEST_TAG_def shouldIgnore_def isModuleAvailableFromHost_def
  createFromCode_def copyFromPath_def installFromCode_def installFromNpm_def uninstall_def
  installFromPath_def installFromGithub_def uninstallAll_def Let_def
  dependsOn_def objectPrototypeKeys_def

lemmas scenario_defs =
  baseManager_def emptyState_def registryWith_def staleState_def codeState_def
  cycleManager_def cycleState_def ignoringManager_def starManager_def manifest_def
  stdLock_def stdUnlock_def demoSatisfies_def demoValid_def demoRegExp_def isLetter_def
  codePlugin_def pairState_def singleState_def

section \<open>Depth bounds\<close>

text \<open>
  A result obtained within one depth bound is the result within every larger one.  So a
  call of the source returns exactly when some bound gives \<open>Some\<close>, the result does not
  depend on the bound, and \<open>None\<close> at every bound is a call that never returns.
\<close>

lemma forEach_mono:
  assumes "forEach body xs st = Some y"
    and "\<And>x s z. x \<in> set xs \<Longrightarrow> body x s = Some z \<Longrightarrow> body' x s = Some z"
  shows "forEach body' xs st = Some y"
  using assms
proof (induction xs arbitrary: st)
  case Nil
  then show ?case by simp
next
  case (Cons x xs)
  from Cons.prems(1) obtain r1 s1 where b: "body x st = Some (r1, s1)"
    by (auto split: option.splits)
  then have b': "body' x st = Some (r1, s1)"
    using Cons.prems(2) by simp
  show ?case
  proof (cases r1)
    case (Inl e)
    with Cons.prems(1) b have "y = (Inl e, s1)" by simp
    with Inl b' show ?thesis by simp
  next
    case (Inr u)
    with Cons.prems(1) b have "forEach body xs s1 = Some y" by simp
    then have "forEach body' xs s1 = Some y"
      using Cons.prems(2) by (intro Cons.IH) auto
    with Inr b' show ?thesis by simp
  qed
qed

lemma unloadWithDependents_mono:
  "unloadWithDependents n plugin st = Some y \<Longrightarrow> unloadWithDependents (Suc n) plugin st = Some y"
proof (induction n arbitrary: plugin st y)
  case 0
  then show ?case by simp
next
  case (Suc n)
  let ?st1 = "emit (VmUnload (pluginName plugin)) st"
  let ?body = "\<lambda>k installed s.
              case pluginDependencies installed of
                None \<Rightarrow> Some (Inl TypeError, s)
              | Some deps \<Rightarrow>
                  if dependsOn deps (pluginName plugin)
                  then unloadWithDependents k installed s
                  else Some (Inr (), s)"
  have "forEach (?body n) (installedPlugins ?st1) ?st1 = Some y"
    using Suc.prems by (simp add: Let_def)
  then have "forEach (?body (Suc n)) (installedPlugins ?st1) ?st1 = Some y"
  proof (rule forEach_mono)
    fix x s z
    assume "?body n x s = Some z"
    then show "?body (Suc n) x s = Some z"
      using Suc.IH [of x s z] by (auto split: option.splits if_splits)
  qed
  then show ?case by (simp add: Let_def)
qed

lemma uninstallLockFree_mono:
  assumes "uninstallLockFree n m name st = Some y"
  shows "uninstallLockFree (Suc n) m name st = Some y"
proof (cases "isValidPluginName name \<and> getFullInfo (installedPlugins st) name \<noteq> None")
  case False
  with assms show ?thesis
    by (auto simp add: uninstallLockFree_def split: if_splits)
next
  case True
  then obtain info where i: "getFullInfo (installedPlugins st) name = Some info" by auto
  let ?st1 = "st\<lparr>installedPlugins := remove1 info (installedPlugins st)\<rparr>"
  from True i assms have d: "deleteAndUnloadPlugin n info st = Some y"
    by (simp add: uninstallLockFree_def)
  then obtain z where u: "unloadWithDependents n info ?st1 = Some z"
    by (auto simp add: deleteAndUnloadPlugin_def Let_def split: option.splits)
  have "unloadWithDependents (Suc n) info ?st1 = Some z"
    using u by (rule unloadWithDependents_mono)
  with d u have "deleteAndUnloadPlugin (Suc n) info st = Some y"
    by (simp add: deleteAndUnloadPlugin_def Let_def)
  with True i show ?thesis
    by (simp add: uninstallLockFree_def)
qed

lemma installDependenciesLoop_mono:
  assumes "installDependenciesLoop self m deps acc st = Some y"
    and "\<And>name v s z. self name v s = Some z \<Longrightarrow> self' name v s = Some z"
  shows "installDependenciesLoop self' m deps acc st = Some y"
  using assms(1)
proof (induction deps arbitrary: acc st)
  case Nil
  then show ?case by simp
next
  case (Cons d deps)
  obtain key version where d: "d = (key, version)" by (cases d)
  show ?case
  proof (cases "shouldIgnore m key \<noteq> Inr False \<or> isModuleAvailableFromHost m key version \<or>
                alreadyInstalled m (installedPlugins st) key (Some version) \<noteq> None")
    case True
    then show ?thesis
      using Cons.prems Cons.IH by (auto simp add: d split: if_splits sum.splits)
  next
    case False
    with Cons.prems obtain r1 s1 where s: "self key (Some version) st = Some (r1, s1)"
      by (auto simp add: d split: option.splits)
    then have s': "self' key (Some version) st = Some (r1, s1)"
      by (rule assms(2))
    show ?thesis
    proof (cases r1)
      case (Inl e)
      with False s s' Cons.prems show ?thesis by (simp add: d)
    next
      case (Inr info)
      with False s Cons.prems
      have "installDependenciesLoop self m deps (acc @ [(key, version)]) s1 = Some y"
        by (simp add: d)
      then have "installDependenciesLoop self' m deps (acc @ [(key, version)]) s1 = Some y"
        by (rule Cons.IH)
      with False s' Inr show ?thesis by (simp add: d)
    qed
  qed
qed

lemma addPlugin_mono:
  assumes "addPlugin self m plugin st = Some y"
    and "\<And>name v s z. self name v s = Some z \<Longrightarrow> self' name v s = Some z"
  shows "addPlugin self' m plugin st = Some y"
proof (cases "pluginDependencies plugin")
  case None
  with assms(1) show ?thesis
    by (simp add: addPlugin_def installDependencies_def)
next
  case (Some deps)
  with assms(1) obtain z where l: "installDependenciesLoop self m deps [] st = Some z"
    by (auto simp add: addPlugin_def installDependencies_def split: option.splits)
  then have "installDependenciesLoop self' m deps [] st = Some z"
    using assms(2) by (rule installDependenciesLoop_mono)
  with assms(1) Some l show ?thesis
    by (simp add: addPlugin_def installDependencies_def)
qed

lemma decisionTree_mono:
  assumes "decisionTree n self m name version checkInstalled force materialize st = Some y"
    and "\<And>name v s z. self name v s = Some z \<Longrightarrow> self' name v s = Some z"
  shows "decisionTree (Suc n) self' m name version checkInstalled force materialize st = Some y"
proof (cases "if checkInstalled then alreadyInstalled m (installedPlugins st) name (Some version)
              else None")
  case (Some installedInfo)
  with assms(1) show ?thesis by (simp add: decisionTree_def)
next
  case None
  let ?un = "\<lambda>k. if alreadyInstalled m (installedPlugins st) name None \<noteq> None
                  then uninstallLockFree k m name st else Some (Inr (), st)"
  from assms(1) None obtain r1 st1 where un: "?un n = Some (r1, st1)"
    by (auto simp add: decisionTree_def split: option.splits)
  then have un': "?un (Suc n) = Some (r1, st1)"
    using uninstallLockFree_mono [of n m name st "(r1, st1)"] by (auto split: if_splits)
  show ?thesis
  proof (cases r1)
    case (Inl e)
    with assms(1) None un un' show ?thesis by (simp add: decisionTree_def)
  next
    case (Inr u)
    let ?mat = "if force \<or> \<not> isAlreadyDownloaded m (disk st1) name version
                then materialize (removeDownloaded m name st1) else (Inr (), st1)"
    obtain r2 st2 where mat: "?mat = (r2, st2)" by (cases ?mat)
    show ?thesis
    proof (cases r2)
      case (Inl e)
      with assms(1) None un un' Inr mat show ?thesis by (simp add: decisionTree_def)
    next
      case u2: (Inr u')
      show ?thesis
      proof (cases "createPluginInfo m (disk st2) name")
        case (Inl e)
        with assms(1) None un un' Inr mat u2 show ?thesis by (simp add: decisionTree_def)
      next
        case c: (Inr pluginInfo)
        have "addPlugin self m pluginInfo st2 = Some y"
          using assms(1) None un Inr mat u2 c by (simp add: decisionTree_def)
        then have "addPlugin self' m pluginInfo st2 = Some y"
          using assms(2) by (rule addPlugin_mono)
        then show ?thesis
          using None un' Inr mat u2 c by (simp add: decisionTree_def)
      qed
    qed
  qed
qed

lemma installLockFree_step_mono:
  assumes "installLockFree_step n self m name version st = Some y"
    and "\<And>name v s z. self name v s = Some z \<Longrightarrow> self' name v s = Some z"
  shows "installLockFree_step (Suc n) self' m name version st = Some y"
proof (cases "isValidPluginName name")
  case False
  with assms(1) show ?thesis by (simp add: installLockFree_step_def)
next
  case True
  show ?thesis
  proof (cases "truthy version \<and> isGithubRepo m (the version)")
    case github: True
    let ?st1 = "emit (GithubGet (the version)) st"
    show ?thesis
    proof (cases "githubGet m (the version)")
      case (Inl e)
      with True github assms(1) show ?thesis
        by (simp add: installLockFree_step_def installFromGithubLockFree_def Let_def)
    next
      case (Inr registryInfo)
      show ?thesis
      proof (cases "isValidPluginName (pkgName registryInfo)")
        case False
        with True github Inr assms(1) show ?thesis
          by (simp add: installLockFree_step_def installFromGithubLockFree_def Let_def)
      next
        case valid: True
        with True github Inr assms(1)
        have "decisionTree n self m (pkgName registryInfo) (pkgVersion registryInfo) True False
                (download (githubTarball m) GithubDownload (pluginsPath m) registryInfo) ?st1 =
              Some y"
          by (simp add: installLockFree_step_def installFromGithubLockFree_def Let_def)
        then have "decisionTree (Suc n) self' m (pkgName registryInfo) (pkgVersion registryInfo)
                True False
                (download (githubTarball m) GithubDownload (pluginsPath m) registryInfo) ?st1 =
              Some y"
          using assms(2) by (rule decisionTree_mono)
        with True github Inr valid show ?thesis
          by (simp add: installLockFree_step_def installFromGithubLockFree_def Let_def)
      qed
    qed
  next
    case npm: False
    let ?v = "case version of None \<Rightarrow> NPM_LATEST_TAG | Some v \<Rightarrow> v"
    let ?st1 = "emit (NpmGet name ?v) st"
    show ?thesis
    proof (cases "npmGet m name ?v")
      case (Inl e)
      with True npm assms(1) show ?thesis
        by (auto simp add: installLockFree_step_def installFromNpmLockFree_def Let_def)
    next
      case (Inr registryInfo)
      with True npm assms(1)
      have "decisionTree n self m (pkgName registryInfo) (pkgVersion registryInfo) True False
              (download (npmTarball m) NpmDownload (pluginsPath m) registryInfo) ?st1 = Some y"
        by (auto simp add: installLockFree_step_def installFromNpmLockFree_def Let_def)
      then have "decisionTree (Suc n) self' m (pkgName registryInfo) (pkgVersion registryInfo)
              True False
              (download (npmTarball m) NpmDownload (pluginsPath m) registryInfo) ?st1 = Some y"
        using assms(2) by (rule decisionTree_mono)
      with True npm Inr show ?thesis
        by (auto simp add: installLockFree_step_def installFromNpmLockFree_def Let_def)
    qed
  qed
qed

lemma installLockFree_mono:
  "installLockFree n m name version st = Some y \<Longrightarrow>
   installLockFree (Suc n) m name version st = Some y"
proof (induction n arbitrary: name version st y)
  case 0
  then show ?case by simp
next
  case (Suc n)
  from Suc.prems
  have "installLockFree_step n (installLockFree n m) m name version st = Some y"
    by simp
  then have "installLockFree_step (Suc n) (installLockFree (Suc n) m) m name version st = Some y"
    using Suc.IH by (rule installLockFree_step_mono)
  then show ?case by simp
qed

lemma installLockFree_returns_for_ever:
  "installLockFree n m name version st = Some y \<Longrightarrow>
   installLockFree (n + k) m name version st = Some y"
proof (induction k)
  case 0
  then show ?case by simp
next
  case (Suc k)
  then have "installLockFree (n + k) m name version st = Some y" by simp
  then have "installLockFree (Suc (n + k)) m name version st = Some y"
    by (rule installLockFree_mono)
  then show ?case by simp
qed

section \<open>The guard of \<^verbatim>\<open>removeDownloaded\<close>\<close>

text \<open>
  C4.  The claim: whenever a package has to be materialised, an existing directory of
  that name is deleted first.  The code does not do so.  In the store left by an earlier
  process, \<^verbatim>\<open>install("p")\<close> resolves to 2.0.0, finds 1.0.0 on disk and materialises;
  \<^verbatim>\<open>removeDownloaded\<close> removes only a directory that does not exist, so no removal
  happens, the archive is unpacked over the old directory and \<^verbatim>\<open>old.js\<close> of 1.0.0
  is still there next to the files of 2.0.0.
\<close>

theorem install_keeps_stale_directory:
  "(case install 1 (registryWith ''2.0.0'') ''p'' None staleState of
      None \<Rightarrow> False
    | Some (r, st') \<Rightarrow>
        r = Inr \<lparr> pluginName = ''p'', pluginVersion = ''2.0.0'',
                  pluginLocation = [''plugin_packages'', ''p''],
                  mainFile = [''plugin_packages'', ''p'', ''index.js''],
                  pluginDependencies = Some [] \<rparr> \<and>
        trace st' = [FsEnsureDir [''plugin_packages''], LockAcquire, NpmGet ''p'' ''latest'',
                     NpmDownload ''p'', FsExtract [''plugin_packages'', ''p''], LockRelease] \<and>
        disk st' [''plugin_packages'', ''p'', ''old.js''] = Some (File (Text ''old'')) \<and>
        disk st' [''plugin_packages'', ''p'', ''index.js''] = Some (File (Text ''new'')))"
  by (simp add: model_defs scenario_defs)

section \<open>Inline code without a version\<close>

text \<open>
  C5.  The claim: \<^verbatim>\<open>installFromCode(name, code)\<close> without a version rewrites the entry
  file with the given text on every call, whatever the store holds.  The code skips the
  check against the registered plugins for the version 0.0.0, but still asks
  \<^verbatim>\<open>isAlreadyDownloaded\<close>: in a store that holds \<^verbatim>\<open>x\<close> at 0.0.0 and with nothing
  registered, \<^verbatim>\<open>installFromCode("x", "new")\<close> writes nothing and registers the old
  entry file.
\<close>

theorem installFromCode_keeps_old_code:
  "(case installFromCode 1 baseManager ''x'' ''new'' None codeState of
      None \<Rightarrow> False
    | Some (r, st') \<Rightarrow>
        r = Inr \<lparr> pluginName = ''x'', pluginVersion = ''0.0.0'',
                  pluginLocation = [''plugin_packages'', ''x''],
                  mainFile = [''plugin_packages'', ''x'', ''index.js''],
                  pluginDependencies = Some [] \<rparr> \<and>
        trace st' = [FsEnsureDir [''plugin_packages''], LockAcquire, LockRelease] \<and>
        disk st' [''plugin_packages'', ''x'', ''index.js''] = Some (File (Text ''old'')))"
  by (simp add: model_defs scenario_defs)

section \<open>The guarded region\<close>

text \<open>
  Once the store directory is there and the lock is taken, a public operation is its
  lock-free body run under \<^verbatim>\<open>try\<close>, followed by the release.
\<close>

lemma locked_acquired:
  assumes "ensureDir (disk st) (pluginsPath m) = Inr fs1"
    and "lockfileLock m (lockLocation m) fs1 = Inr fs2"
  shows "locked m body st =
           tryFinally (body \<lparr>disk = fs2, installedPlugins = installedPlugins st,
                                 trace = trace st @ [FsEnsureDir (pluginsPath m), LockAcquire]\<rparr>)
             (syncUnlock m)"
  using assms by (cases st) (simp add: locked_def syncLock_def emit_def Let_def)

lemma tryFinally_returned:
  "tryFinally (Some (outcome, st3)) (syncUnlock m) =
     Some (case lockfileUnlock m (lockLocation m) (disk st3) of
             Inl message \<Rightarrow>
               (Inl (LockReleaseFailure (''Failed to release lock: '' @ message)),
                st3\<lparr>trace := trace st3 @ [LockRelease]\<rparr>)
           | Inr fs4 \<Rightarrow> (outcome, st3\<lparr>disk := fs4, trace := trace st3 @ [LockRelease]\<rparr>))"
  by (simp add: tryFinally_def syncUnlock_def emit_def Let_def split: sum.splits)

text \<open>
  C2.  The claim: an invalid name (or, for \<^verbatim>\<open>installFromCode\<close>, an invalid version)
  makes a public operation fail before any file-system access and before the lock is
  taken.  The code validates inside the lock-free functions, which run after
  \<^verbatim>\<open>fs.ensureDir\<close> and \<^verbatim>\<open>syncLock\<close>.  What holds: \<^verbatim>\<open>install\<close>,
  \<^verbatim>\<open>installFromNpm\<close>, \<^verbatim>\<open>installFromCode\<close> and \<^verbatim>\<open>uninstall\<close>, given an invalid
  name, and \<^verbatim>\<open>installFromCode\<close>, given a valid name and a version that
  \<^verbatim>\<open>semver.valid\<close> rejects, create the store directory, take the lock, fail with the
  validation error as the first step of the guarded region, and release the lock; the
  registry is untouched and nothing else happens to the store.  (Names are strings in the
  model.)
\<close>

theorem validation_follows_lock:
  assumes "\<not> isValidPluginName name"
    and "ensureDir (disk st) (pluginsPath m) = Inr fs1"
    and "lockfileLock m (lockLocation m) fs1 = Inr fs2"
    and "lockfileUnlock m (lockLocation m) fs2 = Inr fs3"
    and "final = \<lparr>disk = fs3, installedPlugins = installedPlugins st,
                   trace = trace st @ [FsEnsureDir (pluginsPath m), LockAcquire, LockRelease]\<rparr>"
  shows "install (Suc n) m name version st = Some (Inl (InvalidName name), final) \<and>
         installFromNpm n m name version st = Some (Inl (InvalidName name), final) \<and>
         installFromCode n m name code version st = Some (Inl (InvalidName name), final) \<and>
         uninstall n m name st = Some (Inl (InvalidName name), final) \<and>
         (isValidPluginName okName \<and> \<not> semverValid m v \<longrightarrow>
            installFromCode n m okName code (Some v) st = Some (Inl (InvalidVersion v), final))"
  using assms(1,4,5)
  by (simp add: install_def installFromNpm_def installFromCode_def uninstall_def
        locked_acquired [OF assms(2,3)] tryFinally_returned
        installLockFree_step_def installFromNpmLockFree_def installFromCodeLockFree_def
        uninstallLockFree_def Let_def)

text \<open>
  The claim fails on \<^verbatim>\<open>install(".secret")\<close> and on \<^verbatim>\<open>install("a\\b")\<close> in an empty
  file system: the error is the validation error, but by then the store directory has been
  created and the lock taken and released.
\<close>

theorem validation_follows_lock_counterexample:
  "(case install 1 baseManager ''.secret'' None emptyState of
      None \<Rightarrow> False
    | Some (r, st') \<Rightarrow>
        r = Inl (InvalidName ''.secret'') \<and>
        trace st' = [FsEnsureDir [''plugin_packages''], LockAcquire, LockRelease] \<and>
        directoryExists (disk st') [''plugin_packages'']) \<and>
   (case install 1 baseManager [CHR ''a'', CHR 0x5C, CHR ''b''] None emptyState of
      None \<Rightarrow> False
    | Some (r, st') \<Rightarrow>
        r = Inl (InvalidName [CHR ''a'', CHR 0x5C, CHR ''b'']) \<and>
        trace st' = [FsEnsureDir [''plugin_packages''], LockAcquire, LockRelease] \<and>
        directoryExists (disk st') [''plugin_packages''])"
  by (simp add: model_defs scenario_defs)

theorem validation_follows_lock_witness:
  "\<not> isValidPluginName ''.secret'' \<and>
   (case installFromCode 0 baseManager ''.secret'' ''module.exports = 1'' None emptyState of
      None \<Rightarrow> False
    | Some (r, st') \<Rightarrow>
        r = Inl (InvalidName ''.secret'') \<and> installedPlugins st' = [] \<and>
        trace st' = [FsEnsureDir [''plugin_packages''], LockAcquire, LockRelease]) \<and>
   (case installFromCode 0 baseManager ''x'' ''module.exports = 1'' (Some ''one'') emptyState of
      None \<Rightarrow> False
    | Some (r, st') \<Rightarrow>
        r = Inl (InvalidVersion ''one'') \<and> installedPlugins st' = [] \<and>
        trace st' = [FsEnsureDir [''plugin_packages''], LockAcquire, LockRelease])"
proof -
  have a: "\<not> isValidPluginName ''.secret''"
    by (simp add: isValidPluginName_def)
  obtain fs1 where e: "ensureDir (disk emptyState) (pluginsPath baseManager) = Inr fs1"
    by (simp add: ensureDir_def scenario_defs)
  obtain fs2 where l: "lockfileLock baseManager (lockLocation baseManager) fs1 = Inr fs2"
    using e by (auto simp add: ensureDir_def lockLocation_def path_join_def scenario_defs)
  obtain fs3 where u: "lockfileUnlock baseManager (lockLocation baseManager) fs2 = Inr fs3"
    by (simp add: scenario_defs)
  have v: "isValidPluginName ''x'' \<and> \<not> semverValid baseManager ''one''"
    by (simp add: isValidPluginName_def scenario_defs)
  show ?thesis
    using a v validation_follows_lock [OF a e l u refl, where n = 0 and version = None
        and code = "''module.exports = 1''" and okName = "''x''" and v = "''one''"]
    by (simp add: emptyState_def baseManager_def)
qed



section \<open>Installing what is installed\<close>

text \<open>
  C6.  The claim: when the installed version satisfies the requested range, installing
  the same name and range again returns the installed descriptor and does nothing else.
  The code never compares the installed version with the requested range: it asks the
  registry first and compares the installed version with the version the registry
  resolved.  What holds: when the registry resolves the request to a package whose name
  is registered at a version that satisfies the resolved version (taken as the range; an
  empty resolved version is satisfied by any), \<^verbatim>\<open>installLockFree\<close> returns the
  registered descriptor; the store and the registry are as before, and the only step
  taken is the registry query.
\<close>

theorem install_again_returns_installed:
  assumes "isValidPluginName name"
    and "\<not> (truthy version \<and> isGithubRepo m (the version))"
    and "v = (case version of None \<Rightarrow> NPM_LATEST_TAG | Some v \<Rightarrow> v)"
    and "npmGet m name v = Inr registryInfo"
    and "getInfo (installedPlugins st) (pkgName registryInfo) = Some installedInfo"
    and "pkgVersion registryInfo = [] \<or>
         semverSatisfies m (pluginVersion installedInfo) (pkgVersion registryInfo)"
  shows "installLockFree (Suc n) m name version st =
           Some (Inr installedInfo,
                 \<lparr>disk = disk st, installedPlugins = installedPlugins st,
                  trace = trace st @ [NpmGet name v]\<rparr>) \<and>
         installedInfo \<in> set (installedPlugins st)"
proof -
  have "installedInfo \<in> set (installedPlugins st)"
    using assms(5) by (auto simp add: getInfo_def getFullInfo_def find_Some_iff)
  moreover have "installLockFree (Suc n) m name version st =
           Some (Inr installedInfo,
                 \<lparr>disk = disk st, installedPlugins = installedPlugins st,
                  trace = trace st @ [NpmGet name v]\<rparr>)"
    using assms
    by (cases st)
       (auto simp add: installLockFree_step_def installFromNpmLockFree_def decisionTree_def
          alreadyInstalled_def emit_def Let_def)
  ultimately show ?thesis by simp
qed

text \<open>
  Plugin \<^verbatim>\<open>p\<close> is installed with the range \<^verbatim>\<open>^1.0.0\<close> while the registry has
  1.0.0.  The registry then publishes 1.2.0.  The same install again finds 1.0.0
  registered, which satisfies the range, and yet unloads it, removes it, downloads 1.2.0
  and returns a different descriptor.
\<close>

theorem install_again_counterexample:
  "(case install 2 (registryWith ''1.0.0'') ''p'' (Some ''^1.0.0'') emptyState of
      Some (Inr d1, st1) \<Rightarrow>
        getInfo (installedPlugins st1) ''p'' = Some d1 \<and>
        pluginVersion d1 = ''1.0.0'' \<and>
        semverSatisfies (registryWith ''1.2.0'') (pluginVersion d1) ''^1.0.0'' \<and>
        (case install 2 (registryWith ''1.2.0'') ''p'' (Some ''^1.0.0'') st1 of
           Some (Inr d2, st2) \<Rightarrow>
             d2 \<noteq> d1 \<and> pluginVersion d2 = ''1.2.0'' \<and> installedPlugins st2 = [d2] \<and>
             drop (length (trace st1)) (trace st2) =
               [FsEnsureDir [''plugin_packages''], LockAcquire, NpmGet ''p'' ''^1.0.0'',
                VmUnload ''p'', FsRemove [''plugin_packages'', ''p''],
                FsRemove [''plugin_packages'', ''p''], NpmDownload ''p'',
                FsExtract [''plugin_packages'', ''p''], LockRelease]
         | _ \<Rightarrow> False)
    | _ \<Rightarrow> False)"
  by (simp add: model_defs scenario_defs eval_nat_numeral)

theorem install_again_returns_installed_witness:
  "installLockFree 1 (registryWith ''1.0.0'') ''p'' (Some ''^1.0.0'') singleState =
     Some (Inr (codePlugin ''p''),
           \<lparr>disk = disk singleState, installedPlugins = [codePlugin ''p''],
            trace = [NpmGet ''p'' ''^1.0.0'']\<rparr>)"
proof -
  have 1: "isValidPluginName ''p''"
    by (simp add: isValidPluginName_def)
  have 2: "\<not> (truthy (Some ''^1.0.0'') \<and> isGithubRepo (registryWith ''1.0.0'') (the (Some ''^1.0.0'')))"
    by (simp add: scenario_defs)
  have 3: "npmGet (registryWith ''1.0.0'') ''p'' ''^1.0.0'' = Inr \<lparr>pkgName = ''p'', pkgVersion = ''1.0.0''\<rparr>"
    by (simp add: scenario_defs)
  have 4: "getInfo (installedPlugins singleState) (pkgName \<lparr>pkgName = ''p'', pkgVersion = ''1.0.0''\<rparr>) = Some (codePlugin ''p'')"
    by (simp add: getInfo_def getFullInfo_def scenario_defs)
  have 5: "pkgVersion \<lparr>pkgName = ''p'', pkgVersion = ''1.0.0''\<rparr> = [] \<or>
           semverSatisfies (registryWith ''1.0.0'') (pluginVersion (codePlugin ''p''))
             (pkgVersion \<lparr>pkgName = ''p'', pkgVersion = ''1.0.0''\<rparr>)"
    by (simp add: scenario_defs)
  show ?thesis
    using install_again_returns_installed [OF 1 2 _ 3 4 5, where n = 0]
    by (simp add: singleState_def)
qed

section \<open>Ignored dependencies\<close>








section \<open>Uninstalling\<close>

text \<open>
  A loop keeps whatever every run of its body keeps, and unloading changes nothing but
  the trace.
\<close>

lemma forEach_invariant:
  assumes "forEach body xs st = Some (r, st')"
    and "P st"
    and "\<And>x s r' s'. x \<in> set xs \<Longrightarrow> body x s = Some (r', s') \<Longrightarrow> P s \<Longrightarrow> P s'"
  shows "P st'"
  using assms
proof (induction xs arbitrary: st)
  case Nil
  then show ?case by simp
next
  case (Cons x xs)
  show ?case
  proof (cases "body x st")
    case None
    with Cons.prems(1) show ?thesis by simp
  next
    case (Some a)
    obtain o1 s1 where a: "a = (o1, s1)" by (cases a)
    have s1: "P s1"
      using Cons.prems(3) [of x st o1 s1] Cons.prems(2) Some a by simp
    show ?thesis
    proof (cases o1)
      case (Inl e)
      with Cons.prems(1) Some a s1 show ?thesis by simp
    next
      case (Inr u)
      with Cons.prems(1) Some a have "forEach body xs s1 = Some (r, st')" by simp
      then show ?thesis
        using s1 Cons.prems(3) by (intro Cons.IH [of s1]) auto
    qed
  qed
qed

lemma unloadWithDependents_invariant:
  assumes "unloadWithDependents n plugin st = Some (r, st')"
    and "P st"
    and "\<And>s e. P s \<Longrightarrow> P (emit e s)"
  shows "P st'"
  using assms(1,2)
proof (induction n arbitrary: plugin st r st')
  case 0
  then show ?case by simp
next
  case (Suc n)
  let ?body = "\<lambda>installed s.
              case pluginDependencies installed of
                None \<Rightarrow> Some (Inl TypeError, s)
              | Some deps \<Rightarrow>
                  if dependsOn deps (pluginName plugin)
                  then unloadWithDependents n installed s
                  else Some (Inr (), s)"
  let ?st1 = "emit (VmUnload (pluginName plugin)) st"
  have run: "forEach ?body (installedPlugins ?st1) ?st1 = Some (r, st')"
    using Suc.prems(1) by (simp add: Let_def)
  have "P ?st1" using Suc.prems(2) assms(3) by simp
  with run show ?case
  proof (rule forEach_invariant)
    fix x s r' s'
    assume "?body x s = Some (r', s')" and "P s"
    then show "P s'"
      using Suc.IH [of x s r' s'] by (auto split: option.splits if_splits)
  qed
qed

lemma unloadWithDependents_frame:
  assumes "unloadWithDependents n plugin st = Some (r, st')"
  shows "disk st' = disk st \<and> installedPlugins st' = installedPlugins st"
  using assms
  by (rule unloadWithDependents_invariant
        [where P = "\<lambda>s. disk s = disk st \<and> installedPlugins s = installedPlugins st"])
     (simp_all add: emit_def)

text \<open>
  C8.  The claim: an uninstall leaves the registry entry and the store directory of every
  other installed descriptor unchanged.  The registry part holds.  The store part fails
  for a plugin whose directory lies inside the target's: names may contain a slash, so
  \<^verbatim>\<open>a/b\<close> is stored in \<^verbatim>\<open>plugin_packages/a/b\<close>, inside the directory of
  \<^verbatim>\<open>a\<close>, and removing the directory of \<^verbatim>\<open>a\<close> removes it too.  What holds: an
  uninstall that returns, normally or with an error, removes the target's entry from the
  registry and no other, and leaves every path that is not at or below the target's
  location as it was; with an invalid or unregistered name it changes nothing.
\<close>

theorem uninstall_frame:
  assumes "uninstallLockFree n m name st = Some (r, st')"
  shows "(\<not> isValidPluginName name \<or> getFullInfo (installedPlugins st) name = None
            \<longrightarrow> st' = st) \<and>
         (isValidPluginName name \<and> getFullInfo (installedPlugins st) name = Some target \<longrightarrow>
            installedPlugins st' = remove1 target (installedPlugins st) \<and>
            (\<forall>d\<in>set (installedPlugins st). d \<noteq> target \<longrightarrow> d \<in> set (installedPlugins st')) \<and>
            (\<forall>p. \<not> prefix (pluginLocation target) p \<longrightarrow> disk st' p = disk st p))"
proof (intro conjI impI)
  assume "\<not> isValidPluginName name \<or> getFullInfo (installedPlugins st) name = None"
  then show "st' = st"
    using assms by (auto simp add: uninstallLockFree_def split: if_splits)
next
  assume a: "isValidPluginName name \<and> getFullInfo (installedPlugins st) name = Some target"
  let ?st1 = "st\<lparr>installedPlugins := remove1 target (installedPlugins st)\<rparr>"
  from a assms have d: "deleteAndUnloadPlugin n target st = Some (r, st')"
    by (simp add: uninstallLockFree_def)
  then obtain r2 st2 where u: "unloadWithDependents n target ?st1 = Some (r2, st2)"
    by (auto simp add: deleteAndUnloadPlugin_def Let_def split: option.splits)
  have f: "disk st2 = disk st \<and> installedPlugins st2 = remove1 target (installedPlugins st)"
    using unloadWithDependents_frame [OF u] by simp
  have st': "st' = st2 \<or> st' = emit (FsRemove (pluginLocation target))
                                (st2\<lparr>disk := remove (disk st2) (pluginLocation target)\<rparr>)"
    using d u by (auto simp add: deleteAndUnloadPlugin_def Let_def split: sum.splits)
  show reg: "installedPlugins st' = remove1 target (installedPlugins st)"
    using st' f by (auto simp add: emit_def)
  show "\<forall>d\<in>set (installedPlugins st). d \<noteq> target \<longrightarrow> d \<in> set (installedPlugins st')"
    using reg by (simp add: in_set_remove1)
  show "\<forall>p. \<not> prefix (pluginLocation target) p \<longrightarrow> disk st' p = disk st p"
    using st' f by (auto simp add: emit_def remove_def)
qed

text \<open>
  From an empty store, \<^verbatim>\<open>installFromCode("a", "A", "1.0.0")\<close>, then
  \<^verbatim>\<open>installFromCode("a/b", "B", "1.0.0")\<close>, then \<^verbatim>\<open>uninstall("a")\<close>: the plugin
  \<^verbatim>\<open>a/b\<close> is still registered and its directory and entry file are gone.
\<close>

theorem uninstall_frame_counterexample:
  "(case installFromCode 1 baseManager ''a'' ''A'' (Some ''1.0.0'') emptyState of
      Some (Inr a, st1) \<Rightarrow>
        (case installFromCode 1 baseManager ''a/b'' ''B'' (Some ''1.0.0'') st1 of
           Some (Inr ab, st2) \<Rightarrow>
             (case uninstall 1 baseManager ''a'' st2 of
                Some (Inr u, st3) \<Rightarrow>
                  installedPlugins st2 = [a, ab] \<and> ab \<noteq> a \<and>
                  installedPlugins st3 = [ab] \<and>
                  pluginLocation ab = [''plugin_packages'', ''a'', ''b''] \<and>
                  directoryExists (disk st2) (pluginLocation ab) \<and>
                  disk st2 (mainFile ab) = Some (File (Text ''B'')) \<and>
                  \<not> directoryExists (disk st3) (pluginLocation ab) \<and>
                  disk st3 (mainFile ab) = None
              | _ \<Rightarrow> False)
         | _ \<Rightarrow> False)
    | _ \<Rightarrow> False)"
  by (simp add: model_defs scenario_defs)

theorem uninstall_frame_witness:
  "(case uninstallLockFree 1 baseManager ''a'' pairState of
      None \<Rightarrow> False
    | Some (r, st') \<Rightarrow>
        installedPlugins st' = [codePlugin ''c''] \<and>
        disk st' [''plugin_packages'', ''c'', ''index.js''] = Some (File (Text ''C'')))"
proof -
  have "\<exists>r st'. uninstallLockFree 1 baseManager ''a'' pairState = Some (r, st')"
    by (simp add: model_defs scenario_defs)
  then obtain r st' where u: "uninstallLockFree 1 baseManager ''a'' pairState = Some (r, st')"
    by blast
  have t: "isValidPluginName ''a'' \<and>
           getFullInfo (installedPlugins pairState) ''a'' = Some (codePlugin ''a'')"
    by (simp add: isValidPluginName_def getFullInfo_def scenario_defs)
  have "installedPlugins st' = [codePlugin ''c''] \<and>
        disk st' [''plugin_packages'', ''c'', ''index.js''] = Some (File (Text ''C''))"
    using uninstall_frame [OF u, of "codePlugin ''a''"] t
    by (simp add: scenario_defs)
  then show ?thesis
    using u by simp
qed

section \<open>Listing\<close>

text \<open>
  C9.  \<^verbatim>\<open>list()\<close> returns a new array with the registered descriptors in their
  order.  New: in a well-formed heap the reference it returns pointed to no array before
  the call, so it is neither the registry array nor an array anyone holds, and the heap
  stays well formed with the reference handed out, so no later allocation returns it
  again.  The call leaves the registry array, and every other array, as it was.  And
  whatever is later written into the returned array, the registry array keeps its
  elements: the manager's state is the same, so \<^verbatim>\<open>getInfo\<close>, every install and
  uninstall operation, and a later \<^verbatim>\<open>list()\<close> (which returns yet another
  array) answer as they would have.
\<close>

theorem list_returns_fresh_copy:
  assumes "arrays h r = Some ps" and "r < nextRef h" and "wellFormed h"
  shows "(case list r h of
            (a, h') \<Rightarrow>
              arrays h a = None \<and> a \<noteq> r \<and>
              arrays h' a = Some ps \<and>
              arrays h' r = Some ps \<and>
              (\<forall>b. b \<noteq> a \<longrightarrow> arrays h' b = arrays h b) \<and>
              a < nextRef h' \<and> nextRef h \<le> nextRef h' \<and> wellFormed h' \<and>
              managerState r h' = managerState r h \<and>
              (\<forall>xs. arrays (arrayWrite a xs h') r = Some ps \<and>
                    wellFormed (arrayWrite a xs h') \<and>
                    managerState r (arrayWrite a xs h') = managerState r h \<and>
                    (\<forall>name. getInfo (deref (arrayWrite a xs h') r) name = getInfo ps name) \<and>
                    (\<forall>n m name version files events.
                        install n m name version
                          (managerState r (arrayWrite a xs h') files events) =
                        install n m name version (managerState r h files events)) \<and>
                    (case list r (arrayWrite a xs h') of
                       (a2, h2) \<Rightarrow>
                         a2 \<noteq> a \<and> a2 \<noteq> r \<and> arrays h2 a2 = Some ps \<and>
                         arrays h2 a = Some xs \<and> arrays h2 r = Some ps)))"
proof -
  let ?a = "nextRef h"
  let ?h' = "h\<lparr>arrays := (arrays h)(?a \<mapsto> map (\<lambda>p. p) (deref h r)), nextRef := Suc ?a\<rparr>"
  have l: "list r h = (?a, ?h')"
    by (simp add: list_def Let_def)
  have free: "arrays h ?a = None"
    using assms(3) by (simp add: wellFormed_def)
  have ne: "?a \<noteq> r"
    using assms(2) by simp
  have d: "deref h r = ps"
    using assms(1) by (simp add: deref_def)
  have w': "wellFormed ?h'"
    using assms(3) by (simp add: wellFormed_def)
  have m': "managerState r ?h' = managerState r h"
    using ne d assms(1) by (simp add: managerState_def deref_def fun_eq_iff)
  have after: "arrays (arrayWrite ?a xs ?h') r = Some ps \<and>
        wellFormed (arrayWrite ?a xs ?h') \<and>
        managerState r (arrayWrite ?a xs ?h') = managerState r h \<and>
        (\<forall>name. getInfo (deref (arrayWrite ?a xs ?h') r) name = getInfo ps name) \<and>
        (\<forall>n m name version files events.
            install n m name version (managerState r (arrayWrite ?a xs ?h') files events) =
            install n m name version (managerState r h files events)) \<and>
        (case list r (arrayWrite ?a xs ?h') of
           (a2, h2) \<Rightarrow>
             a2 \<noteq> ?a \<and> a2 \<noteq> r \<and> arrays h2 a2 = Some ps \<and>
             arrays h2 ?a = Some xs \<and> arrays h2 r = Some ps)" for xs
  proof -
    have 1: "arrays (arrayWrite ?a xs ?h') r = Some ps"
      using ne assms(1) by (simp add: arrayWrite_def)
    have 2: "wellFormed (arrayWrite ?a xs ?h')"
      using assms(3) by (simp add: wellFormed_def arrayWrite_def)
    have 3: "deref (arrayWrite ?a xs ?h') r = ps"
      using 1 by (simp add: deref_def)
    have 4: "managerState r (arrayWrite ?a xs ?h') = managerState r h"
      using 3 d by (simp add: managerState_def fun_eq_iff)
    have 5: "(case list r (arrayWrite ?a xs ?h') of
           (a2, h2) \<Rightarrow>
             a2 \<noteq> ?a \<and> a2 \<noteq> r \<and> arrays h2 a2 = Some ps \<and>
             arrays h2 ?a = Some xs \<and> arrays h2 r = Some ps)"
      using ne assms(1,2) 3 by (simp add: list_def Let_def arrayWrite_def)
    show ?thesis
      using 1 2 3 4 5 by simp
  qed
  show ?thesis
    unfolding l using free ne d assms(1) w' m' after by simp
qed

theorem list_returns_fresh_copy_witness:
  "(case list 0 \<lparr>arrays = [0 \<mapsto> [codePlugin ''a'', codePlugin ''c'']], nextRef = 1\<rparr> of
      (a, h') \<Rightarrow>
        a = 1 \<and> arrays h' a = Some [codePlugin ''a'', codePlugin ''c''] \<and> nextRef h' = 2 \<and>
        arrays (arrayWrite a [] h') 0 = Some [codePlugin ''a'', codePlugin ''c''] \<and>
        fst (list 0 (arrayWrite a [] h')) = 2)"
proof -
  let ?h = "\<lparr>arrays = [0 \<mapsto> [codePlugin ''a'', codePlugin ''c'']], nextRef = 1\<rparr>"
  have 1: "arrays ?h 0 = Some [codePlugin ''a'', codePlugin ''c'']"
    by simp
  have 2: "0 < nextRef ?h"
    by simp
  have 3: "wellFormed ?h"
    by (simp add: wellFormed_def)
  show ?thesis
    using list_returns_fresh_copy [OF 1 2 3]
    by (auto simp add: list_def Let_def arrayWrite_def)
qed

section \<open>Dependency objects are always there\<close>

text \<open>
  No step of an install but \<^verbatim>\<open>addPlugin\<close> adds to the registry, and what it adds
  comes from \<^verbatim>\<open>createPluginInfo\<close>.
\<close>

lemma createPluginInfo_dependencies:
  assumes "createPluginInfo m fs name = Inr d"
  shows "\<exists>packageJson. readPackageJsonFromPath fs (getPluginLocation m name) = Inr packageJson \<and>
           pluginDependencies d =
             Some (case jsonDependencies packageJson of None \<Rightarrow> [] | Some deps \<Rightarrow> deps)"
  using assms
  by (auto simp add: createPluginInfo_def Let_def split: sum.splits option.splits)

lemma uninstallLockFree_registry:
  assumes "uninstallLockFree n m name st = Some (r, st')"
  shows "set (installedPlugins st') \<subseteq> set (installedPlugins st)"
proof (cases "isValidPluginName name \<and> getFullInfo (installedPlugins st) name \<noteq> None")
  case False
  with assms have "st' = st"
    by (auto simp add: uninstallLockFree_def split: if_splits)
  then show ?thesis by simp
next
  case True
  then obtain target where t: "getFullInfo (installedPlugins st) name = Some target" by auto
  let ?st1 = "st\<lparr>installedPlugins := remove1 target (installedPlugins st)\<rparr>"
  from True t assms have d: "deleteAndUnloadPlugin n target st = Some (r, st')"
    by (simp add: uninstallLockFree_def)
  then obtain r2 st2 where u: "unloadWithDependents n target ?st1 = Some (r2, st2)"
    by (auto simp add: deleteAndUnloadPlugin_def Let_def split: option.splits)
  have "installedPlugins st2 = remove1 target (installedPlugins st)"
    using unloadWithDependents_frame [OF u] by simp
  moreover have "installedPlugins st' = installedPlugins st2"
    using d u by (auto simp add: deleteAndUnloadPlugin_def Let_def emit_def split: sum.splits)
  ultimately show ?thesis
    using set_remove1_subset [of target "installedPlugins st"] by simp
qed

lemma removeDownloaded_registry:
  "installedPlugins (removeDownloaded m name st) = installedPlugins st"
  by (simp add: removeDownloaded_def emit_def Let_def)

lemma download_registry:
  "download tarball ev dest info st = (r, st') \<Longrightarrow> installedPlugins st' = installedPlugins st"
  by (auto simp add: download_def emit_def Let_def split: sum.splits)

lemma copyFromPath_registry:
  "copyFromPath m location name st = (r, st') \<Longrightarrow> installedPlugins st' = installedPlugins st"
  by (auto simp add: copyFromPath_def emit_def Let_def split: sum.splits)

lemma createFromCode_registry:
  "createFromCode m name code version st = (r, st') \<Longrightarrow>
   installedPlugins st' = installedPlugins st"
  by (auto simp add: createFromCode_def emit_def Let_def split: sum.splits)

lemma installDependenciesLoop_defined:
  assumes "installDependenciesLoop self m deps acc st = Some (r, st')"
    and "dependenciesDefined st"
    and "\<And>name v s r s'. self name v s = Some (r, s') \<Longrightarrow> dependenciesDefined s \<Longrightarrow>
           definedOutcome r s'"
  shows "dependenciesDefined st'"
  using assms(1,2)
proof (induction deps arbitrary: acc st)
  case Nil
  then show ?case by simp
next
  case (Cons d deps)
  obtain key version where d: "d = (key, version)" by (cases d)
  show ?case
  proof (cases "shouldIgnore m key \<noteq> Inr False \<or> isModuleAvailableFromHost m key version \<or>
                alreadyInstalled m (installedPlugins st) key (Some version) \<noteq> None")
    case True
    then show ?thesis
      using Cons.prems Cons.IH by (auto simp add: d split: if_splits sum.splits)
  next
    case False
    with Cons.prems(1) obtain r1 s1 where s: "self key (Some version) st = Some (r1, s1)"
      by (auto simp add: d split: option.splits)
    have s1: "definedOutcome r1 s1"
      using assms(3) [OF s Cons.prems(2)] .
    show ?thesis
    proof (cases r1)
      case (Inl e)
      with False s Cons.prems(1) have "st' = s1" by (simp add: d)
      with s1 show ?thesis by (simp add: definedOutcome_def)
    next
      case (Inr info)
      with False s Cons.prems(1)
      have l: "installDependenciesLoop self m deps (acc @ [(key, version)]) s1 = Some (r, st')"
        by (simp add: d)
      have d1: "dependenciesDefined s1"
        using s1 by (simp add: definedOutcome_def)
      show ?thesis
        using l d1 by (rule Cons.IH)
    qed
  qed
qed

lemma addPlugin_defined:
  assumes "addPlugin self m plugin st = Some (r, st')"
    and "dependenciesDefined st"
    and "pluginDependencies plugin \<noteq> None"
    and "\<And>name v s r s'. self name v s = Some (r, s') \<Longrightarrow> dependenciesDefined s \<Longrightarrow>
           definedOutcome r s'"
  shows "definedOutcome r st'"
proof -
  obtain deps where deps: "pluginDependencies plugin = Some deps"
    using assms(3) by auto
  obtain r1 s1 where l: "installDependenciesLoop self m deps [] st = Some (r1, s1)"
    using assms(1) by (auto simp add: addPlugin_def installDependencies_def deps split: option.splits)
  have s1: "dependenciesDefined s1"
    using installDependenciesLoop_defined [OF l assms(2)] assms(4) by blast
  show ?thesis
    using assms(1,3) l s1
    by (cases r1)
       (auto simp add: addPlugin_def installDependencies_def deps definedOutcome_def
          dependenciesDefined_def)
qed

lemma decisionTree_defined:
  assumes "decisionTree n self m name version checkInstalled force materialize st = Some (r, st')"
    and "dependenciesDefined st"
    and "\<And>s r s'. materialize s = (r, s') \<Longrightarrow> installedPlugins s' = installedPlugins s"
    and "\<And>name v s r s'. self name v s = Some (r, s') \<Longrightarrow> dependenciesDefined s \<Longrightarrow>
           definedOutcome r s'"
  shows "definedOutcome r st'"
proof (cases "if checkInstalled then alreadyInstalled m (installedPlugins st) name (Some version)
              else None")
  case (Some installedInfo)
  then have "installedInfo \<in> set (installedPlugins st)"
    by (auto simp add: alreadyInstalled_def getInfo_def getFullInfo_def find_Some_iff
          split: if_splits option.splits)
  moreover have "r = Inr installedInfo \<and> st' = st"
    using assms(1) Some by (simp add: decisionTree_def)
  ultimately show ?thesis
    using assms(2) by (simp add: definedOutcome_def dependenciesDefined_def)
next
  case None
  let ?un = "if alreadyInstalled m (installedPlugins st) name None \<noteq> None
             then uninstallLockFree n m name st else Some (Inr (), st)"
  from assms(1) None obtain r1 st1 where un: "?un = Some (r1, st1)"
    by (auto simp add: decisionTree_def split: option.splits)
  have "set (installedPlugins st1) \<subseteq> set (installedPlugins st)"
    using un uninstallLockFree_registry [of n m name st r1 st1] by (auto split: if_splits)
  with assms(2) have d1: "dependenciesDefined st1"
    by (auto simp add: dependenciesDefined_def)
  show ?thesis
  proof (cases r1)
    case (Inl e)
    with assms(1) None un have "r = Inl e \<and> st' = st1"
      by (simp add: decisionTree_def)
    with d1 show ?thesis by (simp add: definedOutcome_def)
  next
    case (Inr u)
    let ?mat = "if force \<or> \<not> isAlreadyDownloaded m (disk st1) name version
                then materialize (removeDownloaded m name st1) else (Inr (), st1)"
    obtain r2 st2 where mat: "?mat = (r2, st2)" by (cases ?mat)
    have "installedPlugins st2 = installedPlugins st1"
      using mat assms(3) [of "removeDownloaded m name st1" r2 st2]
      by (auto simp add: removeDownloaded_registry split: if_splits)
    with d1 have d2: "dependenciesDefined st2"
      by (simp add: dependenciesDefined_def)
    show ?thesis
    proof (cases r2)
      case (Inl e)
      with assms(1) None un Inr mat have "r = Inl e \<and> st' = st2"
        by (simp add: decisionTree_def)
      with d2 show ?thesis by (simp add: definedOutcome_def)
    next
      case u2: (Inr u')
      show ?thesis
      proof (cases "createPluginInfo m (disk st2) name")
        case (Inl e)
        with assms(1) None un Inr mat u2 have "r = Inl e \<and> st' = st2"
          by (simp add: decisionTree_def)
        with d2 show ?thesis by (simp add: definedOutcome_def)
      next
        case c: (Inr pluginInfo)
        have p: "pluginDependencies pluginInfo \<noteq> None"
          using createPluginInfo_dependencies [OF c] by auto
        have "addPlugin self m pluginInfo st2 = Some (r, st')"
          using assms(1) None un Inr mat u2 c by (simp add: decisionTree_def)
        then show ?thesis
          using d2 p assms(4) by (rule addPlugin_defined)
      qed
    qed
  qed
qed


lemma emit_defined: "dependenciesDefined st \<Longrightarrow> dependenciesDefined (emit ev st)"
  by (simp add: dependenciesDefined_def emit_def)

lemma thrown_defined: "dependenciesDefined st \<Longrightarrow> definedOutcome (Inl e) st"
  by (simp add: definedOutcome_def)

lemma installFromNpmLockFree_defined:
  assumes "installFromNpmLockFree n self m name version st = Some (r, st')"
    and "dependenciesDefined st"
    and "\<And>name v s r s'. self name v s = Some (r, s') \<Longrightarrow> dependenciesDefined s \<Longrightarrow>
           definedOutcome r s'"
  shows "definedOutcome r st'"
proof (cases "isValidPluginName name")
  case False
  with assms(1) have "r = Inl (InvalidName name) \<and> st' = st"
    by (simp add: installFromNpmLockFree_def)
  then show ?thesis using assms(2) by (simp add: thrown_defined)
next
  case True
  let ?v = "case version of None \<Rightarrow> NPM_LATEST_TAG | Some v \<Rightarrow> v"
  let ?st1 = "emit (NpmGet name ?v) st"
  have d1: "dependenciesDefined ?st1"
    using assms(2) by (rule emit_defined)
  show ?thesis
  proof (cases "npmGet m name ?v")
    case (Inl e)
    with True assms(1) have "r = Inl e \<and> st' = ?st1"
      by (simp add: installFromNpmLockFree_def Let_def)
    then show ?thesis using d1 by (simp add: thrown_defined)
  next
    case (Inr registryInfo)
    with True assms(1)
    have "decisionTree n self m (pkgName registryInfo) (pkgVersion registryInfo) True False
            (download (npmTarball m) NpmDownload (pluginsPath m) registryInfo) ?st1 =
          Some (r, st')"
      by (simp add: installFromNpmLockFree_def Let_def)
    then show ?thesis
      using d1 download_registry assms(3) by (rule decisionTree_defined)
  qed
qed

lemma installFromGithubLockFree_defined:
  assumes "installFromGithubLockFree n self m repository st = Some (r, st')"
    and "dependenciesDefined st"
    and "\<And>name v s r s'. self name v s = Some (r, s') \<Longrightarrow> dependenciesDefined s \<Longrightarrow>
           definedOutcome r s'"
  shows "definedOutcome r st'"
proof -
  let ?st1 = "emit (GithubGet repository) st"
  have d1: "dependenciesDefined ?st1"
    using assms(2) by (rule emit_defined)
  show ?thesis
  proof (cases "githubGet m repository")
    case (Inl e)
    with assms(1) have "r = Inl e \<and> st' = ?st1"
      by (simp add: installFromGithubLockFree_def Let_def)
    then show ?thesis using d1 by (simp add: thrown_defined)
  next
    case (Inr registryInfo)
    show ?thesis
    proof (cases "isValidPluginName (pkgName registryInfo)")
      case False
      with Inr assms(1) have "r = Inl (ReferenceError ''name'') \<and> st' = ?st1"
        by (simp add: installFromGithubLockFree_def Let_def)
      then show ?thesis using d1 by (simp add: thrown_defined)
    next
      case True
      with Inr assms(1)
      have "decisionTree n self m (pkgName registryInfo) (pkgVersion registryInfo) True False
              (download (githubTarball m) GithubDownload (pluginsPath m) registryInfo) ?st1 =
            Some (r, st')"
        by (simp add: installFromGithubLockFree_def Let_def)
      then show ?thesis
        using d1 download_registry assms(3) by (rule decisionTree_defined)
    qed
  qed
qed

lemma installFromPathLockFree_defined:
  assumes "installFromPathLockFree n self m location force st = Some (r, st')"
    and "dependenciesDefined st"
    and "\<And>name v s r s'. self name v s = Some (r, s') \<Longrightarrow> dependenciesDefined s \<Longrightarrow>
           definedOutcome r s'"
  shows "definedOutcome r st'"
proof (cases "readPackageJsonFromPath (disk st) location")
  case (Inl e)
  with assms(1) have "r = Inl e \<and> st' = st"
    by (simp add: installFromPathLockFree_def)
  then show ?thesis using assms(2) by (simp add: thrown_defined)
next
  case (Inr packageJson)
  let ?name = "the (jsonName packageJson)"
  show ?thesis
  proof (cases "isValidPluginName ?name")
    case False
    with Inr assms(1) have "r = Inl (InvalidName ?name) \<and> st' = st"
      by (simp add: installFromPathLockFree_def Let_def)
    then show ?thesis using assms(2) by (simp add: thrown_defined)
  next
    case True
    with Inr assms(1)
    have "decisionTree n self m ?name (the (jsonVersion packageJson)) (\<not> force) force
            (copyFromPath m location ?name) st = Some (r, st')"
      by (simp add: installFromPathLockFree_def Let_def)
    then show ?thesis
      using assms(2) copyFromPath_registry assms(3) by (rule decisionTree_defined)
  qed
qed

lemma installFromCodeLockFree_defined:
  assumes "installFromCodeLockFree n self m name code versionArg st = Some (r, st')"
    and "dependenciesDefined st"
    and "\<And>name v s r s'. self name v s = Some (r, s') \<Longrightarrow> dependenciesDefined s \<Longrightarrow>
           definedOutcome r s'"
  shows "definedOutcome r st'"
proof -
  let ?version = "case versionArg of None \<Rightarrow> ''0.0.0'' | Some v \<Rightarrow> v"
  show ?thesis
  proof (cases "isValidPluginName name \<and> semverValid m ?version")
    case False
    with assms(1) have "\<exists>e. r = Inl e \<and> st' = st"
      by (auto simp add: installFromCodeLockFree_def Let_def split: if_splits)
    then show ?thesis using assms(2) by (auto simp add: thrown_defined)
  next
    case True
    with assms(1)
    have "decisionTree n self m name ?version (?version \<noteq> ''0.0.0'') False
            (createFromCode m name code ?version) st = Some (r, st')"
      by (simp add: installFromCodeLockFree_def Let_def)
    then show ?thesis
      using assms(2) createFromCode_registry assms(3) by (rule decisionTree_defined)
  qed
qed

lemma installLockFree_step_defined:
  assumes "installLockFree_step n self m name version st = Some (r, st')"
    and "dependenciesDefined st"
    and "\<And>name v s r s'. self name v s = Some (r, s') \<Longrightarrow> dependenciesDefined s \<Longrightarrow>
           definedOutcome r s'"
  shows "definedOutcome r st'"
proof (cases "isValidPluginName name")
  case False
  with assms(1) have "r = Inl (InvalidName name) \<and> st' = st"
    by (simp add: installLockFree_step_def)
  then show ?thesis using assms(2) by (simp add: thrown_defined)
next
  case True
  show ?thesis
  proof (cases "truthy version \<and> isGithubRepo m (the version)")
    case github: True
    with True assms(1)
    have "installFromGithubLockFree n self m (the version) st = Some (r, st')"
      by (simp add: installLockFree_step_def)
    then show ?thesis
      using assms(2,3) by (rule installFromGithubLockFree_defined)
  next
    case False
    with True assms(1)
    have "installFromNpmLockFree n self m name version st = Some (r, st')"
      by (auto simp add: installLockFree_step_def)
    then show ?thesis
      using assms(2,3) by (rule installFromNpmLockFree_defined)
  qed
qed

lemma installLockFree_defined:
  assumes "installLockFree n m name version st = Some (r, st')"
    and "dependenciesDefined st"
  shows "definedOutcome r st'"
  using assms
proof (induction n arbitrary: name version st r st')
  case 0
  then show ?case by simp
next
  case (Suc n)
  from Suc.prems(1)
  have "installLockFree_step n (installLockFree n m) m name version st = Some (r, st')"
    by simp
  then show ?case
    using Suc.prems(2) Suc.IH by (rule installLockFree_step_defined)
qed

lemma locked_defined:
  assumes "locked m body st = Some (r, st')"
    and "dependenciesDefined st"
    and "\<And>s r s'. body s = Some (r, s') \<Longrightarrow> dependenciesDefined s \<Longrightarrow> definedOutcome r s'"
  shows "definedOutcome r st'"
proof -
  have reg: "dependenciesDefined s" if "installedPlugins s = installedPlugins st" for s
    using that assms(2) by (simp add: dependenciesDefined_def)
  let ?st1 = "emit (FsEnsureDir (pluginsPath m)) st"
  show ?thesis
  proof (cases "ensureDir (disk ?st1) (pluginsPath m)")
    case (Inl e)
    with assms(1) have "r = Inl e \<and> st' = ?st1"
      by (simp add: locked_def Let_def)
    then show ?thesis
      using reg [of ?st1] by (simp add: definedOutcome_def emit_def)
  next
    case (Inr fs1)
    obtain r2 st2 where l: "syncLock m (?st1\<lparr>disk := fs1\<rparr>) = (r2, st2)"
      by (cases "syncLock m (?st1\<lparr>disk := fs1\<rparr>)")
    have "installedPlugins st2 = installedPlugins st"
      using l by (auto simp add: syncLock_def emit_def Let_def split: sum.splits)
    then have d2: "dependenciesDefined st2" by (rule reg)
    show ?thesis
    proof (cases r2)
      case e: (Inl e)
      with assms(1) Inr l have "r = Inl e \<and> st' = st2"
        by (simp add: locked_def Let_def)
      with d2 show ?thesis by (simp add: definedOutcome_def)
    next
      case u: (Inr u)
      with assms(1) Inr l have t: "tryFinally (body st2) (syncUnlock m) = Some (r, st')"
        by (simp add: locked_def Let_def)
      then obtain r3 st3 where b: "body st2 = Some (r3, st3)"
        by (auto simp add: tryFinally_def split: option.splits)
      have o3: "definedOutcome r3 st3"
        using b d2 by (rule assms(3))
      obtain r4 st4 where ul: "syncUnlock m st3 = (r4, st4)"
        by (cases "syncUnlock m st3")
      have "installedPlugins st4 = installedPlugins st3"
        using ul by (auto simp add: syncUnlock_def emit_def Let_def split: sum.splits)
      then have d4: "dependenciesDefined st4"
        using o3 by (simp add: definedOutcome_def dependenciesDefined_def)
      show ?thesis
        using t b ul o3 d4
        by (cases r4) (auto simp add: tryFinally_def definedOutcome_def)
    qed
  qed
qed

lemma forEach_returns:
  assumes "forEach body xs st = Some (r, st')"
    and "P st"
    and "\<And>x s r' s'. x \<in> set xs \<Longrightarrow> body x s = Some (r', s') \<Longrightarrow> P s \<Longrightarrow> r' = Inr () \<and> P s'"
  shows "r = Inr ()"
  using assms
proof (induction xs arbitrary: st)
  case Nil
  then show ?case by simp
next
  case (Cons x xs)
  from Cons.prems(1) obtain r1 s1 where b: "body x st = Some (r1, s1)"
    by (auto split: option.splits)
  have 1: "r1 = Inr () \<and> P s1"
    using Cons.prems(3) [of x st r1 s1] b Cons.prems(2) by simp
  with Cons.prems(1) b have "forEach body xs s1 = Some (r, st')" by simp
  then show ?case
    using 1 Cons.prems(3) by (intro Cons.IH [of s1]) auto
qed

lemma unloadWithDependents_defined:
  assumes "unloadWithDependents n plugin st = Some (r, st')"
    and "dependenciesDefined st"
  shows "r = Inr ()"
  using assms
proof (induction n arbitrary: plugin st r st')
  case 0
  then show ?case by simp
next
  case (Suc n)
  let ?body = "\<lambda>installed s.
              case pluginDependencies installed of
                None \<Rightarrow> Some (Inl TypeError, s)
              | Some deps \<Rightarrow>
                  if dependsOn deps (pluginName plugin)
                  then unloadWithDependents n installed s
                  else Some (Inr (), s)"
  let ?st1 = "emit (VmUnload (pluginName plugin)) st"
  have run: "forEach ?body (installedPlugins ?st1) ?st1 = Some (r, st')"
    using Suc.prems(1) by (simp add: Let_def)
  have d1: "dependenciesDefined ?st1"
    using Suc.prems(2) by (simp add: dependenciesDefined_def emit_def)
  from run d1 show ?case
  proof (rule forEach_returns)
    fix x s r' s'
    assume x: "x \<in> set (installedPlugins ?st1)"
      and b: "?body x s = Some (r', s')" and s: "dependenciesDefined s"
    from x d1 obtain deps where deps: "pluginDependencies x = Some deps"
      by (auto simp add: dependenciesDefined_def)
    show "r' = Inr () \<and> dependenciesDefined s'"
    proof (cases "dependsOn deps (pluginName plugin)")
      case True
      with b deps have u: "unloadWithDependents n x s = Some (r', s')" by simp
      have "installedPlugins s' = installedPlugins s"
        using unloadWithDependents_frame [OF u] by simp
      with s have "dependenciesDefined s'" by (simp add: dependenciesDefined_def)
      with Suc.IH [OF u s] show ?thesis by simp
    next
      case False
      with b deps s show ?thesis by simp
    qed
  qed
qed

text \<open>
  C10.  A descriptor built by \<^verbatim>\<open>createPluginInfo\<close> has the dependency object of the
  manifest, or the empty one when the manifest has none.  So, starting from a registry
  whose descriptors all have a dependency object, whatever a public install operation
  returns or throws, every registered descriptor has one afterwards, and so has the
  descriptor returned; and on such a registry the lookup in
  \<^verbatim>\<open>unloadWithDependents\<close> never throws: when the cascade returns, it returns
  normally.
\<close>

theorem installed_descriptors_have_dependencies:
  assumes "\<forall>d\<in>set (installedPlugins st). pluginDependencies d \<noteq> None"
  shows "(createPluginInfo m files name = Inr info \<longrightarrow>
            (\<exists>packageJson.
                readPackageJsonFromPath files (getPluginLocation m name) = Inr packageJson \<and>
                pluginDependencies info =
                  Some (case jsonDependencies packageJson of None \<Rightarrow> [] | Some deps \<Rightarrow> deps))) \<and>
         (install n m name version st = Some (r, st') \<or>
          installFromNpm n m name version st = Some (r, st') \<or>
          installFromGithub n m repository st = Some (r, st') \<or>
          installFromPath n m location force st = Some (r, st') \<or>
          installFromCode n m name code version st = Some (r, st') \<longrightarrow>
            (\<forall>d\<in>set (installedPlugins st'). pluginDependencies d \<noteq> None) \<and>
            (\<forall>d. r = Inr d \<longrightarrow> pluginDependencies d \<noteq> None)) \<and>
         (unloadWithDependents k plugin st = Some (r2, st2) \<longrightarrow> r2 = Inr ())"
proof (intro conjI impI)
  assume "createPluginInfo m files name = Inr info"
  then show "\<exists>packageJson.
                readPackageJsonFromPath files (getPluginLocation m name) = Inr packageJson \<and>
                pluginDependencies info =
                  Some (case jsonDependencies packageJson of None \<Rightarrow> [] | Some deps \<Rightarrow> deps)"
    by (rule createPluginInfo_dependencies)
next
  have d: "dependenciesDefined st"
    using assms by (simp add: dependenciesDefined_def)
  assume "install n m name version st = Some (r, st') \<or>
          installFromNpm n m name version st = Some (r, st') \<or>
          installFromGithub n m repository st = Some (r, st') \<or>
          installFromPath n m location force st = Some (r, st') \<or>
          installFromCode n m name code version st = Some (r, st')"
  then have o: "definedOutcome r st'"
  proof (elim disjE)
    assume "install n m name version st = Some (r, st')"
    then show ?thesis
      unfolding install_def using d installLockFree_defined by (rule locked_defined)
  next
    assume "installFromNpm n m name version st = Some (r, st')"
    then show ?thesis
      unfolding installFromNpm_def using d
      by (rule locked_defined) (rule installFromNpmLockFree_defined, assumption+, rule installLockFree_defined)
  next
    assume "installFromGithub n m repository st = Some (r, st')"
    then show ?thesis
      unfolding installFromGithub_def using d
      by (rule locked_defined) (rule installFromGithubLockFree_defined, assumption+, rule installLockFree_defined)
  next
    assume "installFromPath n m location force st = Some (r, st')"
    then show ?thesis
      unfolding installFromPath_def using d
      by (rule locked_defined) (rule installFromPathLockFree_defined, assumption+, rule installLockFree_defined)
  next
    assume "installFromCode n m name code version st = Some (r, st')"
    then show ?thesis
      unfolding installFromCode_def using d
      by (rule locked_defined) (rule installFromCodeLockFree_defined, assumption+, rule installLockFree_defined)
  qed
  show "\<forall>d\<in>set (installedPlugins st'). pluginDependencies d \<noteq> None"
    using o by (simp add: definedOutcome_def dependenciesDefined_def)
  show "\<forall>d. r = Inr d \<longrightarrow> pluginDependencies d \<noteq> None"
    using o by (auto simp add: definedOutcome_def)
next
  assume "unloadWithDependents k plugin st = Some (r2, st2)"
  then show "r2 = Inr ()"
    using assms by (intro unloadWithDependents_defined [of k plugin st r2 st2])
      (simp_all add: dependenciesDefined_def)
qed

theorem installed_descriptors_have_dependencies_witness:
  "(case installFromCode 1 baseManager ''x'' ''A'' (Some ''1.0.0'') emptyState of
      None \<Rightarrow> False
    | Some (r, st') \<Rightarrow>
        r = Inr (codePlugin ''x'') \<and> installedPlugins st' = [codePlugin ''x''] \<and>
        list_all (\<lambda>d. pluginDependencies d \<noteq> None) (installedPlugins st') \<and>
        disk st' [''plugin_packages'', ''x'', ''package.json''] =
          Some (File (Json (manifest ''x'' ''1.0.0'' None))))"
proof -
  have c: "(case installFromCode 1 baseManager ''x'' ''A'' (Some ''1.0.0'') emptyState of
      None \<Rightarrow> False
    | Some (r, st') \<Rightarrow>
        r = Inr (codePlugin ''x'') \<and> installedPlugins st' = [codePlugin ''x''] \<and>
        disk st' [''plugin_packages'', ''x'', ''package.json''] =
          Some (File (Json (manifest ''x'' ''1.0.0'' None))))"
    by (simp add: model_defs scenario_defs)
  then obtain r st' where
    i: "installFromCode 1 baseManager ''x'' ''A'' (Some ''1.0.0'') emptyState =
          Some (r, st')"
    by (cases "installFromCode 1 baseManager ''x'' ''A'' (Some ''1.0.0'') emptyState")
       auto
  have e: "\<forall>d\<in>set (installedPlugins emptyState). pluginDependencies d \<noteq> None"
    by (simp add: emptyState_def)
  have "\<forall>d\<in>set (installedPlugins st'). pluginDependencies d \<noteq> None"
    using installed_descriptors_have_dependencies [OF e, where n = 1 and m = baseManager
        and name = "''x''" and code = "''A''" and version = "Some ''1.0.0''"
        and r = r and st' = st'] i
    by blast
  then have "list_all (\<lambda>d. pluginDependencies d \<noteq> None) (installedPlugins st')"
    by (simp add: list_all_iff)
  then show ?thesis
    using c unfolding i by simp
qed

section \<open>Dependency cycles\<close>








end
